theory Spec2Isabelle
  imports Main "HOL-Library.Word" "HOL-Library.Finite_Map"
begin

section \<open>The endpoint-slice controller of the Kubernetes service registry\<close>

text \<open>
  This theory embeds \<^verbatim>\<open>pilot/pkg/serviceregistry/kube/controller/endpointslice.go\<close>:
  the slice cache (\<^verbatim>\<open>endpointSliceCache\<close>), the locality derivation, the update handler
  \<^verbatim>\<open>updateEDS\<close> and the two instance queries.

  Conventions. A Go \<^verbatim>\<open>map[K]V\<close> is a partial function \<open>K \<rightharpoonup> V\<close>, or a finite map
  \<open>(K, V) fmap\<close> where the code ranges over it; reading a missing key gives the zero
  value of \<open>V\<close>, and a \<^verbatim>\<open>nil\<close> map reads like the empty one. A Go slice
  is a list, \<^verbatim>\<open>nil\<close> and the empty slice both being \<open>[]\<close> (the code only takes their
  length and ranges over them). A pointer that may be \<^verbatim>\<open>nil\<close> is an \<open>option\<close>.
  \<^verbatim>\<open>host.Name\<close> is a string type. The mutexes are not modelled: every operation is
  taken as one atomic step.
\<close>

subsection \<open>The slice cache\<close>

text \<open>
  \<^verbatim>\<open>endpointsByServiceAndSlice map[host.Name]map[string][]*model.IstioEndpoint\<close>.
  The endpoint type is left open (\<open>'ep\<close>): the cache never looks inside an endpoint.
\<close>

record 'ep endpointSliceCache =
  endpointsByServiceAndSlice :: "string \<rightharpoonup> (string, 'ep list) fmap"

definition newEndpointSliceCache :: "'ep endpointSliceCache" where
  "newEndpointSliceCache = \<lparr>endpointsByServiceAndSlice = Map.empty\<rparr>"

text \<open>
  The expression \<^verbatim>\<open>e.endpointsByServiceAndSlice[hostname]\<close> read as a map: the inner map
  of the hostname, or the \<^verbatim>\<open>nil\<close> map (no entries) when the hostname has none.
\<close>

definition slices_of :: "'ep endpointSliceCache \<Rightarrow> string \<Rightarrow> (string, 'ep list) fmap" where
  "slices_of e hostname =
     (case endpointsByServiceAndSlice e hostname of None \<Rightarrow> fmempty | Some inner \<Rightarrow> inner)"

text \<open>
  \<^verbatim>\<open>Update\<close>, statement by statement:
  \<^enum> \<^verbatim>\<open>if len(endpoints) == 0 { delete(e.endpointsByServiceAndSlice[hostname], slice) }\<close>
    (\<^verbatim>\<open>delete\<close> on a \<^verbatim>\<open>nil\<close> map does nothing);
  \<^enum> \<^verbatim>\<open>if _, f := e.endpointsByServiceAndSlice[hostname]; !f { ... = make(...) }\<close>;
  \<^enum> \<^verbatim>\<open>e.endpointsByServiceAndSlice[hostname][slice] = endpoints\<close>, which runs in
    every case: there is no \<^verbatim>\<open>return\<close> after the \<^verbatim>\<open>delete\<close>. After step 2 the hostname
    has an inner map, so the \<open>None\<close> branch of \<open>m3\<close> is never taken.
  The parameter \<^verbatim>\<open>slice\<close> is written \<open>sliceName\<close> here.
\<close>

definition Update ::
  "'ep endpointSliceCache \<Rightarrow> string \<Rightarrow> string \<Rightarrow> 'ep list \<Rightarrow> 'ep endpointSliceCache" where
  "Update e hostname sliceName endpoints =
     (let m0 = endpointsByServiceAndSlice e;
          m1 = (if length endpoints = 0
                then (case m0 hostname of
                        None \<Rightarrow> m0
                      | Some inner \<Rightarrow> m0(hostname \<mapsto> fmdrop sliceName inner))
                else m0);
          m2 = (case m1 hostname of
                  None \<Rightarrow> m1(hostname \<mapsto> fmempty)
                | Some inner \<Rightarrow> m1);
          m3 = (case m2 hostname of
                  None \<Rightarrow> m2
                | Some inner \<Rightarrow> m2(hostname \<mapsto> fmupd sliceName endpoints inner))
      in e\<lparr>endpointsByServiceAndSlice := m3\<rparr>)"

text \<open>
  \<^verbatim>\<open>Get\<close> ranges over the inner map and appends every slice's list. Go leaves the
  iteration order of a map unspecified, and it may differ from one loop to the next; each
  entry is visited once. \<open>Get_loop m ks endpoints\<close> is the loop run over the keys in the
  order \<open>ks\<close>, and \<open>Get e hostname out\<close> holds when \<open>out\<close> is the result for some order.
\<close>

fun Get_loop :: "(string, 'ep list) fmap \<Rightarrow> string list \<Rightarrow> 'ep list \<Rightarrow> 'ep list" where
  "Get_loop m [] endpoints = endpoints"
| "Get_loop m (k # ks) endpoints =
     Get_loop m ks (endpoints @ (case fmlookup m k of None \<Rightarrow> [] | Some eps \<Rightarrow> eps))"

inductive Get :: "'ep endpointSliceCache \<Rightarrow> string \<Rightarrow> 'ep list \<Rightarrow> bool" where
  Get_range:
    "distinct ks \<Longrightarrow> set ks = fmdom' (slices_of e hostname) \<Longrightarrow>
     Get e hostname (Get_loop (slices_of e hostname) ks [])"

subsection \<open>Sequences of updates\<close>

text \<open>A call \<^verbatim>\<open>update(h, s, recs)\<close> is a triple; a sequence of calls runs from the left.\<close>

type_synonym 'ep update_call = "string \<times> string \<times> 'ep list"

definition apply_update :: "'ep endpointSliceCache \<Rightarrow> 'ep update_call \<Rightarrow> 'ep endpointSliceCache" where
  "apply_update e u = Update e (fst u) (fst (snd u)) (snd (snd u))"

definition run_updates :: "'ep update_call list \<Rightarrow> 'ep endpointSliceCache" where
  "run_updates us = foldl apply_update newEndpointSliceCache us"

text \<open>
  The words of the specification: the latest \<open>recs\<close> written for slice \<open>s\<close> of hostname
  \<open>h\<close>, the slices whose latest \<open>recs\<close> is non-empty, and the concatenation in
  slice-insertion order (the order in which the slices were first written: of the
  slice names written for \<open>h\<close>, each is kept at its first occurrence).
\<close>

definition calls_for :: "'ep update_call list \<Rightarrow> string \<Rightarrow> string \<Rightarrow> 'ep update_call list" where
  "calls_for us h s = filter (\<lambda>u. fst u = h \<and> fst (snd u) = s) us"

definition latest :: "'ep update_call list \<Rightarrow> string \<Rightarrow> string \<Rightarrow> 'ep list option" where
  "latest us h s =
     (if calls_for us h s = [] then None else Some (snd (snd (last (calls_for us h s)))))"

definition latest_recs :: "'ep update_call list \<Rightarrow> string \<Rightarrow> string \<Rightarrow> 'ep list" where
  "latest_recs us h s = (case latest us h s of None \<Rightarrow> [] | Some recs \<Rightarrow> recs)"

definition live_slices :: "'ep update_call list \<Rightarrow> string \<Rightarrow> string set" where
  "live_slices us h = {s. latest_recs us h s \<noteq> []}"

definition merged_in_insertion_order :: "'ep update_call list \<Rightarrow> string \<Rightarrow> 'ep list" where
  "merged_in_insertion_order us h =
     concat (map (latest_recs us h)
       (rev (remdups (rev (map (\<lambda>u. fst (snd u)) (filter (\<lambda>u. fst u = h) us))))))"

subsection \<open>Kubernetes objects and registry types\<close>

text \<open>
  Only the fields the controller reads are kept. \<^verbatim>\<open>map[string]string\<close> (label sets,
  the topology of an endpoint) is \<open>labels\<close>; \<open>label_value m k\<close> is the Go expression
  \<^verbatim>\<open>m[k]\<close>, the empty string for a missing key. The label map of a pod may be \<^verbatim>\<open>nil\<close>
  (a pod with no labels): \<open>Labels p = None\<close>. A \<^verbatim>\<open>nil\<close> map reads like the empty map
  (\<open>pod_labels\<close>), and a store into it panics.
  Where two Go types have a field of the same name the record fields carry a prefix:
  \<^verbatim>\<open>EndpointSlice.Name\<close> is \<open>SliceName\<close>, \<^verbatim>\<open>EndpointSlice.Labels\<close> is \<open>SliceLabels\<close>,
  \<^verbatim>\<open>EndpointPort.Name\<close> and \<^verbatim>\<open>EndpointPort.Port\<close> (both pointers) are \<open>PortName\<close> and
  \<open>PortNumber\<close>, \<^verbatim>\<open>Service.Attributes.Name\<close> and \<^verbatim>\<open>.Namespace\<close> are \<open>ServiceName\<close> and
  \<open>ServiceNamespace\<close>, \<^verbatim>\<open>Service.Ports\<close> is \<open>ServicePorts\<close>, \<^verbatim>\<open>ServiceInstance.Endpoint\<close>
  and \<^verbatim>\<open>.Service\<close> are \<open>InstanceEndpoint\<close> and \<open>InstanceService\<close>,
  \<^verbatim>\<open>Proxy.Metadata.Namespace\<close> is \<open>ProxyNamespace\<close>. An \<^verbatim>\<open>int32\<close> is a 32-bit word, a Go
  \<^verbatim>\<open>int\<close> an integer (the code compares port numbers and does no arithmetic).
\<close>

type_synonym labels = "string \<rightharpoonup> string"

definition label_value :: "labels \<Rightarrow> string \<Rightarrow> string" where
  "label_value m k = (case m k of None \<Rightarrow> [] | Some v \<Rightarrow> v)"

record Pod =
  Labels :: "labels option"

definition pod_labels :: "Pod \<Rightarrow> labels" where
  "pod_labels p = (case Labels p of None \<Rightarrow> Map.empty | Some m \<Rightarrow> m)"

text \<open>
  A run-time panic is a value: the index expression \<^verbatim>\<open>proxy.IPAddresses[0]\<close> on an empty
  list, and the assignment to an entry of a \<^verbatim>\<open>nil\<close> map.
\<close>

datatype panic = IndexOutOfRange | NilMapAssignment

record ObjectReference =
  Kind :: string

record Endpoint =
  Addresses :: "string list"
  Ready :: "bool option"
  TargetRef :: "ObjectReference option"
  Topology :: labels

record EndpointPort =
  PortName :: "string option"
  PortNumber :: "32 word option"

record EndpointSlice =
  SliceName :: string
  Namespace :: string
  SliceLabels :: labels
  Endpoints :: "Endpoint list"
  Ports :: "EndpointPort list"

record Port =
  Name :: string
  Port :: int

record Service =
  ServiceName :: string
  ServiceNamespace :: string
  ServicePorts :: "Port list"

record 'ep ServiceInstance =
  InstanceEndpoint :: 'ep
  ServicePort :: Port
  InstanceService :: Service

record Proxy =
  ID :: string
  IPAddresses :: "string list"
  ProxyNamespace :: string

datatype Event = EventAdd | EventUpdate | EventDelete

text \<open>
  The controller \<^verbatim>\<open>c\<close> as the functions read it: the service map, the pod cache
  (\<^verbatim>\<open>c.pods.getPodByIP(a)\<close> is \<open>pods c a\<close>), the domain suffix, the cluster identity, and
  the informer's store behind the endpoint-slice lister: \<open>informer c ns sel\<close> is the
  outcome of \<^verbatim>\<open>EndpointSlices(ns).List(sel)\<close>, an error (\<open>Inl\<close>) or the slices listed, the
  selector \<^verbatim>\<open>Everything()\<close> being the empty label set.
\<close>

record Controller =
  servicesMap :: "string \<rightharpoonup> Service"
  pods :: "string \<rightharpoonup> Pod"
  domainSuffix :: string
  clusterID :: string
  informer :: "string \<Rightarrow> labels \<Rightarrow> string + EndpointSlice list"

text \<open>
  What the handler changes: the slice cache, the metrics (\<open>None\<close> when \<^verbatim>\<open>c.metrics\<close> is
  \<^verbatim>\<open>nil\<close>, else the calls of \<^verbatim>\<open>AddMetric\<close> so far) and the calls of
  \<^verbatim>\<open>xdsUpdater.EDSUpdate(clusterID, hostname, namespace, endpoints)\<close> so far.
\<close>

datatype metric = EndpointNoPod string string | ProxyStatusEndpointNotReady string

record 'ep registry =
  endpointCache :: "'ep endpointSliceCache"
  metrics :: "metric list option"
  xdsUpdates :: "(string \<times> string \<times> string \<times> 'ep list) list"

definition AddMetric :: "metric \<Rightarrow> metric list option \<Rightarrow> metric list option" where
  "AddMetric m ms = (case ms of None \<Rightarrow> None | Some l \<Rightarrow> Some (l @ [m]))"

text \<open>
  The label names are constants declared outside this file; they are parameters here.
\<close>

record label_names =
  LabelServiceName :: string
  NodeRegionLabelGA :: string
  NodeZoneLabelGA :: string
  IstioSubzoneLabel :: string
  LocalityLabel :: string

text \<open>
  Functions called by the controller and defined outside this file are parameters too:
  \<^verbatim>\<open>kube.ServiceHostname(name, namespace, domainSuffix)\<close>, \<^verbatim>\<open>NewEndpointBuilder(c, pod)\<close>
  and \<^verbatim>\<open>builder.buildIstioEndpoint(address, port, portName)\<close>, taken as pure functions.
  The builder type \<open>'b\<close> and the endpoint type \<open>'ep\<close> are left open.
\<close>

record ('b, 'ep) externals =
  names :: label_names
  ServiceHostname :: "string \<Rightarrow> string \<Rightarrow> string \<Rightarrow> string"
  NewEndpointBuilder :: "Controller \<Rightarrow> Pod option \<Rightarrow> 'b"
  buildIstioEndpoint :: "'b \<Rightarrow> string \<Rightarrow> 32 word \<Rightarrow> string \<Rightarrow> 'ep"

text \<open>
  Modelled from the spec: \<^verbatim>\<open>PortList.GetByPort\<close> is not among the sources. The service
  port object for a numeric port; no match gives \<open>None\<close>.
\<close>

definition GetByPort :: "Port list \<Rightarrow> int \<Rightarrow> Port option" where
  "GetByPort ports num = find (\<lambda>p. Port p = num) ports"

text \<open>
  Modelled from the spec: \<^verbatim>\<open>PortList.Get\<close> is not among the sources. The service port
  with a given name (slice ports are matched to service ports by name).
\<close>

definition GetByName :: "Port list \<Rightarrow> string \<Rightarrow> Port option" where
  "GetByName ports name = find (\<lambda>p. Name p = name) ports"

text \<open>
  Modelled from the spec: \<^verbatim>\<open>labels.Collection.HasSubsetOf\<close> is not among the sources.
  The request's label set must be fully contained in the workload's labels: every
  requested label is a label of the workload, with the same value. (The source passes a
  \<^verbatim>\<open>labels.Collection\<close>; the specification speaks of one requested label set.)
\<close>

definition HasSubsetOf :: "labels \<Rightarrow> labels \<Rightarrow> bool" where
  "HasSubsetOf labelsList podLabels = (labelsList \<subseteq>\<^sub>m podLabels)"

subsection \<open>The endpoint builder and the locality\<close>

text \<open>
  \<^verbatim>\<open>getLocalityFromTopology\<close>: the region value is read with no test for presence (a
  missing region reads as the empty string); the zone and the subzone are appended, each
  after a \<^verbatim>\<open>"/"\<close>, when their key is present.
\<close>

definition getLocalityFromTopology :: "label_names \<Rightarrow> labels \<Rightarrow> string" where
  "getLocalityFromTopology L topology =
     (let locality = label_value topology (NodeRegionLabelGA L);
          locality = (case topology (NodeZoneLabelGA L) of
                        None \<Rightarrow> locality
                      | Some zone \<Rightarrow> locality @ ''/'' @ label_value topology (NodeZoneLabelGA L));
          locality = (case topology (IstioSubzoneLabel L) of
                        None \<Rightarrow> locality
                      | Some subzone \<Rightarrow>
                          locality @ ''/'' @ label_value topology (IstioSubzoneLabel L))
      in locality)"

text \<open>
  The words of the specification: region, zone and subzone in this order, joined by
  \<^verbatim>\<open>"/"\<close>, missing fields omitted.
\<close>

fun join :: "string \<Rightarrow> string list \<Rightarrow> string" where
  "join sep [] = []"
| "join sep [x] = x"
| "join sep (x # y # ys) = x @ sep @ join sep (y # ys)"

definition present_fields :: "label_names \<Rightarrow> labels \<Rightarrow> string list" where
  "present_fields L topology =
     List.map_filter topology [NodeRegionLabelGA L, NodeZoneLabelGA L, IstioSubzoneLabel L]"

definition locality_of_present_fields :: "label_names \<Rightarrow> labels \<Rightarrow> string" where
  "locality_of_present_fields L topology = join ''/'' (present_fields L topology)"

text \<open>
  \<^verbatim>\<open>newEndpointBuilder\<close>: a pod whose \<^verbatim>\<open>istio-locality\<close> label is missing or empty is
  copied, and the copy gets the locality derived from the endpoint's topology; the
  builder is made from the pod (or from \<^verbatim>\<open>nil\<close>). \<^verbatim>\<open>DeepCopy\<close> keeps a \<^verbatim>\<open>nil\<close> label map
  \<^verbatim>\<open>nil\<close>, so for a pod with no label map the store
  \<^verbatim>\<open>pod.Labels[model.LocalityLabel] = ...\<close> panics. The pod in the pod cache is not
  changed.
\<close>

definition newEndpointBuilder ::
  "('b, 'ep) externals \<Rightarrow> Controller \<Rightarrow> Pod option \<Rightarrow> Endpoint \<Rightarrow> panic + 'b" where
  "newEndpointBuilder X c pod endpoint =
     (case pod of
        None \<Rightarrow> Inr (NewEndpointBuilder X c None)
      | Some p \<Rightarrow>
          if label_value (pod_labels p) (LocalityLabel (names X)) = []
          then (case Labels p of
                  None \<Rightarrow> Inl NilMapAssignment
                | Some m \<Rightarrow>
                    Inr (NewEndpointBuilder X c
                      (Some (p\<lparr>Labels := Some (m(LocalityLabel (names X) \<mapsto>
                          getLocalityFromTopology (names X) (Topology endpoint)))\<rparr>))))
          else Inr (NewEndpointBuilder X c (Some p)))"

subsection \<open>The update handler\<close>

text \<open>
  The hostname of a slice:
  \<^verbatim>\<open>kube.ServiceHostname(slice.Labels[LabelServiceName], slice.Namespace, domainSuffix)\<close>.
\<close>

definition slice_hostname :: "('b, 'ep) externals \<Rightarrow> Controller \<Rightarrow> EndpointSlice \<Rightarrow> string" where
  "slice_hostname X c sl =
     ServiceHostname X (label_value (SliceLabels sl) (LabelServiceName (names X)))
       (Namespace sl) (domainSuffix c)"

text \<open>
  The three nested loops of \<^verbatim>\<open>updateEDS\<close>, innermost first. Each takes the loop's
  variables as they stand and returns them as the loop leaves them: the list
  \<^verbatim>\<open>endpoints\<close> and, for the outer two, the metrics; the outer two end with the panic
  of \<^verbatim>\<open>newEndpointBuilder\<close> when it panics.
  \<^item> Ports: a \<^verbatim>\<open>nil\<close> port number reads as 0, a \<^verbatim>\<open>nil\<close> port name as the empty string;
    one endpoint is appended per port.
  \<^item> Addresses: an address with no pod whose endpoint has a \<^verbatim>\<open>TargetRef\<close> of kind
    \<^verbatim>\<open>"Pod"\<close> is counted in the metrics (when there are metrics) and skipped by
    \<^verbatim>\<open>continue\<close>; for any other address the builder is made, then its endpoints.
  \<^item> Endpoints: an endpoint whose \<^verbatim>\<open>Conditions.Ready\<close> is set and false is skipped.
\<close>

fun updateEDS_ports ::
  "('b, 'ep) externals \<Rightarrow> 'b \<Rightarrow> string \<Rightarrow> EndpointPort list \<Rightarrow> 'ep list \<Rightarrow> 'ep list" where
  "updateEDS_ports X builder a [] endpoints = endpoints"
| "updateEDS_ports X builder a (port # ports) endpoints =
     (let portNum = (case PortNumber port of None \<Rightarrow> 0 | Some n \<Rightarrow> n);
          portName = (case PortName port of None \<Rightarrow> [] | Some s \<Rightarrow> s);
          istioEndpoint = buildIstioEndpoint X builder a portNum portName
      in updateEDS_ports X builder a ports (endpoints @ [istioEndpoint]))"

text \<open>The body of the loop over the addresses, for one address \<open>a\<close> of the endpoint \<open>e\<close>.\<close>

definition updateEDS_address ::
  "('b, 'ep) externals \<Rightarrow> Controller \<Rightarrow> string \<Rightarrow> EndpointSlice \<Rightarrow> Endpoint \<Rightarrow> string \<Rightarrow>
   'ep list \<times> metric list option \<Rightarrow> panic + ('ep list \<times> metric list option)" where
  "updateEDS_address X c hostname sl e a st =
     (let pod = pods c a in
      if pod = None \<and> (case TargetRef e of None \<Rightarrow> False | Some r \<Rightarrow> Kind r = ''Pod'')
      then Inr (fst st, AddMetric (EndpointNoPod hostname a) (snd st))
      else (case newEndpointBuilder X c pod e of
              Inl p \<Rightarrow> Inl p
            | Inr builder \<Rightarrow> Inr (updateEDS_ports X builder a (Ports sl) (fst st), snd st)))"

fun updateEDS_addresses ::
  "('b, 'ep) externals \<Rightarrow> Controller \<Rightarrow> string \<Rightarrow> EndpointSlice \<Rightarrow> Endpoint \<Rightarrow> string list \<Rightarrow>
   'ep list \<times> metric list option \<Rightarrow> panic + ('ep list \<times> metric list option)" where
  "updateEDS_addresses X c hostname sl e [] st = Inr st"
| "updateEDS_addresses X c hostname sl e (a # as) st =
     (case updateEDS_address X c hostname sl e a st of
        Inl p \<Rightarrow> Inl p
      | Inr st' \<Rightarrow> updateEDS_addresses X c hostname sl e as st')"

fun updateEDS_endpoints ::
  "('b, 'ep) externals \<Rightarrow> Controller \<Rightarrow> string \<Rightarrow> EndpointSlice \<Rightarrow> Endpoint list \<Rightarrow>
   'ep list \<times> metric list option \<Rightarrow> panic + ('ep list \<times> metric list option)" where
  "updateEDS_endpoints X c hostname sl [] st = Inr st"
| "updateEDS_endpoints X c hostname sl (e # es) st =
     (if Ready e = Some False
      then updateEDS_endpoints X c hostname sl es st
      else (case updateEDS_addresses X c hostname sl e (Addresses e) st of
              Inl p \<Rightarrow> Inl p
            | Inr st' \<Rightarrow> updateEDS_endpoints X c hostname sl es st'))"

text \<open>
  The list written to the cache: empty for a delete event, built by the loops otherwise.
\<close>

definition updateEDS_build ::
  "('b, 'ep) externals \<Rightarrow> Controller \<Rightarrow> EndpointSlice \<Rightarrow> Event \<Rightarrow> metric list option \<Rightarrow>
   panic + ('ep list \<times> metric list option)" where
  "updateEDS_build X c sl event ms =
     (if event \<noteq> EventDelete
      then updateEDS_endpoints X c (slice_hostname X c sl) sl (Endpoints sl) ([], ms)
      else Inr ([], ms))"

text \<open>
  \<^verbatim>\<open>updateEDS\<close> as a step from a registry state to an outcome: the next state when it
  returns (\<open>Inr\<close>), the panic when it does not (\<open>Inl\<close>). It returns nothing, so there is
  no error to surface. With no service for the hostname it returns at once. Else it
  builds the list; when that panics, nothing is written and nothing is pushed. Else it
  writes the list into the cache and calls \<^verbatim>\<open>EDSUpdate\<close> with a result of \<^verbatim>\<open>Get\<close> on the
  new cache.
\<close>

inductive updateEDS ::
  "('b, 'ep) externals \<Rightarrow> Controller \<Rightarrow> EndpointSlice \<Rightarrow> Event \<Rightarrow>
   'ep registry \<Rightarrow> panic + 'ep registry \<Rightarrow> bool" where
  updateEDS_skip:
    "servicesMap c (slice_hostname X c sl) = None \<Longrightarrow> updateEDS X c sl event s (Inr s)"
| updateEDS_panic:
    "servicesMap c (slice_hostname X c sl) = Some svc \<Longrightarrow>
     updateEDS_build X c sl event (metrics s) = Inl p \<Longrightarrow>
     updateEDS X c sl event s (Inl p)"
| updateEDS_push:
    "servicesMap c (slice_hostname X c sl) = Some svc \<Longrightarrow>
     updateEDS_build X c sl event (metrics s) = Inr built \<Longrightarrow>
     cache' = Update (endpointCache s) (slice_hostname X c sl) (SliceName sl) (fst built) \<Longrightarrow>
     Get cache' (slice_hostname X c sl) merged \<Longrightarrow>
     updateEDS X c sl event s
       (Inr \<lparr>endpointCache = cache',
             metrics = snd built,
             xdsUpdates = xdsUpdates s @
               [(clusterID c, slice_hostname X c sl, Namespace sl, merged)]\<rparr>)"

subsection \<open>The instance queries\<close>

text \<open>
  \<^verbatim>\<open>proxyServiceInstances\<close>, innermost loop first. The loops over the proxy's addresses,
  the slice's endpoints and their addresses append an instance for every address equal
  to a proxy address, and count an endpoint that is not ready in the metrics.
\<close>

fun proxy_addresses_loop ::
  "('b, 'ep) externals \<Rightarrow> Service \<Rightarrow> Proxy \<Rightarrow> 'b \<Rightarrow> EndpointPort \<Rightarrow> Port \<Rightarrow> string \<Rightarrow>
   Endpoint \<Rightarrow> string list \<Rightarrow>
   'ep ServiceInstance list \<times> metric list option \<Rightarrow>
   'ep ServiceInstance list \<times> metric list option" where
  "proxy_addresses_loop X svc proxy builder port svcPort ip e [] st = st"
| "proxy_addresses_loop X svc proxy builder port svcPort ip e (a # as) st =
     (if a = ip
      then proxy_addresses_loop X svc proxy builder port svcPort ip e as
             (fst st @
                [\<lparr>InstanceEndpoint =
                    buildIstioEndpoint X builder ip
                      (case PortNumber port of None \<Rightarrow> 0 | Some n \<Rightarrow> n) (Name svcPort),
                  ServicePort = svcPort,
                  InstanceService = svc\<rparr>],
              if Ready e = Some False
              then AddMetric (ProxyStatusEndpointNotReady (ID proxy)) (snd st)
              else snd st)
      else proxy_addresses_loop X svc proxy builder port svcPort ip e as st)"

fun proxy_endpoints_loop ::
  "('b, 'ep) externals \<Rightarrow> Service \<Rightarrow> Proxy \<Rightarrow> 'b \<Rightarrow> EndpointPort \<Rightarrow> Port \<Rightarrow> string \<Rightarrow>
   Endpoint list \<Rightarrow>
   'ep ServiceInstance list \<times> metric list option \<Rightarrow>
   'ep ServiceInstance list \<times> metric list option" where
  "proxy_endpoints_loop X svc proxy builder port svcPort ip [] st = st"
| "proxy_endpoints_loop X svc proxy builder port svcPort ip (e # es) st =
     proxy_endpoints_loop X svc proxy builder port svcPort ip es
       (proxy_addresses_loop X svc proxy builder port svcPort ip e (Addresses e) st)"

fun proxy_ips_loop ::
  "('b, 'ep) externals \<Rightarrow> Service \<Rightarrow> Proxy \<Rightarrow> 'b \<Rightarrow> EndpointPort \<Rightarrow> Port \<Rightarrow>
   EndpointSlice \<Rightarrow> string list \<Rightarrow>
   'ep ServiceInstance list \<times> metric list option \<Rightarrow>
   'ep ServiceInstance list \<times> metric list option" where
  "proxy_ips_loop X svc proxy builder port svcPort ep [] st = st"
| "proxy_ips_loop X svc proxy builder port svcPort ep (ip # ips) st =
     proxy_ips_loop X svc proxy builder port svcPort ep ips
       (proxy_endpoints_loop X svc proxy builder port svcPort ip (Endpoints ep) st)"

text \<open>
  The loop over the slice's ports: a port with no name or no number is skipped, and so is
  a port whose name is not a port name of the service.
\<close>

fun proxy_ports_loop ::
  "('b, 'ep) externals \<Rightarrow> Service \<Rightarrow> Proxy \<Rightarrow> 'b \<Rightarrow> EndpointSlice \<Rightarrow> EndpointPort list \<Rightarrow>
   'ep ServiceInstance list \<times> metric list option \<Rightarrow>
   'ep ServiceInstance list \<times> metric list option" where
  "proxy_ports_loop X svc proxy builder ep [] st = st"
| "proxy_ports_loop X svc proxy builder ep (port # ports) st =
     (if PortName port = None \<or> PortNumber port = None
      then proxy_ports_loop X svc proxy builder ep ports st
      else (case GetByName (ServicePorts svc) (case PortName port of None \<Rightarrow> [] | Some s \<Rightarrow> s) of
              None \<Rightarrow> proxy_ports_loop X svc proxy builder ep ports st
            | Some svcPort \<Rightarrow>
                proxy_ports_loop X svc proxy builder ep ports
                  (proxy_ips_loop X svc proxy builder port svcPort ep (IPAddresses proxy) st)))"

text \<open>
  \<^verbatim>\<open>proxyServiceInstances\<close>: nothing for a slice of an unknown service; else
  \<^verbatim>\<open>podIP := proxy.IPAddresses[0]\<close> is evaluated with no test of the length, and panics
  on an empty list.
\<close>

definition proxyServiceInstances ::
  "('b, 'ep) externals \<Rightarrow> Controller \<Rightarrow> EndpointSlice \<Rightarrow> Proxy \<Rightarrow> metric list option \<Rightarrow>
   panic + ('ep ServiceInstance list \<times> metric list option)" where
  "proxyServiceInstances X c ep proxy ms =
     (case servicesMap c (slice_hostname X c ep) of
        None \<Rightarrow> Inr ([], ms)
      | Some svc \<Rightarrow>
          (case IPAddresses proxy of
             [] \<Rightarrow> Inl IndexOutOfRange
           | podIP # rest \<Rightarrow>
               Inr (proxy_ports_loop X svc proxy (NewEndpointBuilder X c (pods c podIP))
                      ep (Ports ep) ([], ms))))"

text \<open>
  \<^verbatim>\<open>GetProxyServiceInstances\<close>: lists every slice of the proxy's namespace; a lister
  error gives \<^verbatim>\<open>nil\<close>. The loop appends the instances of each slice; a panic in a call
  ends it.
\<close>

fun GetProxyServiceInstances_loop ::
  "('b, 'ep) externals \<Rightarrow> Controller \<Rightarrow> Proxy \<Rightarrow> EndpointSlice list \<Rightarrow>
   'ep ServiceInstance list \<times> metric list option \<Rightarrow>
   panic + ('ep ServiceInstance list \<times> metric list option)" where
  "GetProxyServiceInstances_loop X c proxy [] st = Inr st"
| "GetProxyServiceInstances_loop X c proxy (ep # eps) st =
     (case proxyServiceInstances X c ep proxy (snd st) of
        Inl p \<Rightarrow> Inl p
      | Inr r \<Rightarrow> GetProxyServiceInstances_loop X c proxy eps (fst st @ fst r, snd r))"

definition GetProxyServiceInstances ::
  "('b, 'ep) externals \<Rightarrow> Controller \<Rightarrow> Proxy \<Rightarrow> metric list option \<Rightarrow>
   panic + ('ep ServiceInstance list \<times> metric list option)" where
  "GetProxyServiceInstances X c proxy ms =
     (case informer c (ProxyNamespace proxy) Map.empty of
        Inl err \<Rightarrow> Inr ([], ms)
      | Inr eps \<Rightarrow> GetProxyServiceInstances_loop X c proxy eps ([], ms))"

text \<open>
  \<^verbatim>\<open>InstancesByPort\<close>, innermost loop first. A slice port with no name, or with the name
  of the service port, gives an instance; the instance carries the service port's name.
  An address is skipped when the requested labels are not contained in the labels of its
  pod (no labels when there is no pod, or when the pod's label map is \<^verbatim>\<open>nil\<close>); for any
  other address the builder is made, which may panic, then its instances. There is no
  test of \<^verbatim>\<open>Conditions.Ready\<close> in this function.
\<close>

fun InstancesByPort_ports ::
  "('b, 'ep) externals \<Rightarrow> Service \<Rightarrow> Port \<Rightarrow> 'b \<Rightarrow> string \<Rightarrow> EndpointPort list \<Rightarrow>
   'ep ServiceInstance list \<Rightarrow> 'ep ServiceInstance list" where
  "InstancesByPort_ports X svc svcPort builder a [] out = out"
| "InstancesByPort_ports X svc svcPort builder a (port # ports) out =
     (let portNum = (case PortNumber port of None \<Rightarrow> 0 | Some n \<Rightarrow> n) in
      if PortName port = None \<or> PortName port = Some (Name svcPort)
      then InstancesByPort_ports X svc svcPort builder a ports
             (out @ [\<lparr>InstanceEndpoint = buildIstioEndpoint X builder a portNum (Name svcPort),
                      ServicePort = svcPort,
                      InstanceService = svc\<rparr>])
      else InstancesByPort_ports X svc svcPort builder a ports out)"

text \<open>The body of the loop over the addresses, for one address \<open>a\<close> of the endpoint \<open>e\<close>.\<close>

definition InstancesByPort_address ::
  "('b, 'ep) externals \<Rightarrow> Controller \<Rightarrow> Service \<Rightarrow> Port \<Rightarrow> labels \<Rightarrow> EndpointSlice \<Rightarrow>
   Endpoint \<Rightarrow> string \<Rightarrow> 'ep ServiceInstance list \<Rightarrow> panic + 'ep ServiceInstance list" where
  "InstancesByPort_address X c svc svcPort labelsList sl e a out =
     (let pod = pods c a;
          podLabels = (case pod of None \<Rightarrow> Map.empty | Some p \<Rightarrow> pod_labels p) in
      if \<not> HasSubsetOf labelsList podLabels
      then Inr out
      else (case newEndpointBuilder X c pod e of
              Inl p \<Rightarrow> Inl p
            | Inr builder \<Rightarrow> Inr (InstancesByPort_ports X svc svcPort builder a (Ports sl) out)))"

fun InstancesByPort_addresses ::
  "('b, 'ep) externals \<Rightarrow> Controller \<Rightarrow> Service \<Rightarrow> Port \<Rightarrow> labels \<Rightarrow> EndpointSlice \<Rightarrow>
   Endpoint \<Rightarrow> string list \<Rightarrow> 'ep ServiceInstance list \<Rightarrow> panic + 'ep ServiceInstance list" where
  "InstancesByPort_addresses X c svc svcPort labelsList sl e [] out = Inr out"
| "InstancesByPort_addresses X c svc svcPort labelsList sl e (a # as) out =
     (case InstancesByPort_address X c svc svcPort labelsList sl e a out of
        Inl p \<Rightarrow> Inl p
      | Inr out' \<Rightarrow> InstancesByPort_addresses X c svc svcPort labelsList sl e as out')"

fun InstancesByPort_endpoints ::
  "('b, 'ep) externals \<Rightarrow> Controller \<Rightarrow> Service \<Rightarrow> Port \<Rightarrow> labels \<Rightarrow> EndpointSlice \<Rightarrow>
   Endpoint list \<Rightarrow> 'ep ServiceInstance list \<Rightarrow> panic + 'ep ServiceInstance list" where
  "InstancesByPort_endpoints X c svc svcPort labelsList sl [] out = Inr out"
| "InstancesByPort_endpoints X c svc svcPort labelsList sl (e # es) out =
     (case InstancesByPort_addresses X c svc svcPort labelsList sl e (Addresses e) out of
        Inl p \<Rightarrow> Inl p
      | Inr out' \<Rightarrow> InstancesByPort_endpoints X c svc svcPort labelsList sl es out')"

fun InstancesByPort_slices ::
  "('b, 'ep) externals \<Rightarrow> Controller \<Rightarrow> Service \<Rightarrow> Port \<Rightarrow> labels \<Rightarrow> EndpointSlice list \<Rightarrow>
   'ep ServiceInstance list \<Rightarrow> panic + 'ep ServiceInstance list" where
  "InstancesByPort_slices X c svc svcPort labelsList [] out = Inr out"
| "InstancesByPort_slices X c svc svcPort labelsList (sl # slices) out =
     (case InstancesByPort_endpoints X c svc svcPort labelsList sl (Endpoints sl) out of
        Inl p \<Rightarrow> Inl p
      | Inr out' \<Rightarrow> InstancesByPort_slices X c svc svcPort labelsList slices out')"

text \<open>
  \<^verbatim>\<open>InstancesByPort\<close> returns a pair, the instances and the error (\<open>None\<close> for \<^verbatim>\<open>nil\<close>),
  or panics. The slices are listed in the service's namespace under the selector
  \<^verbatim>\<open>{LabelServiceName: svc.Attributes.Name}\<close>. Every \<^verbatim>\<open>return\<close> of the function has
  \<^verbatim>\<open>nil\<close> as its second value.
\<close>

definition InstancesByPort ::
  "('b, 'ep) externals \<Rightarrow> Controller \<Rightarrow> Service \<Rightarrow> int \<Rightarrow> labels \<Rightarrow>
   panic + ('ep ServiceInstance list \<times> string option)" where
  "InstancesByPort X c svc reqSvcPort labelsList =
     (case informer c (ServiceNamespace svc)
             [LabelServiceName (names X) \<mapsto> ServiceName svc] of
        Inl err \<Rightarrow> Inr ([], None)
      | Inr slices \<Rightarrow>
          if length slices = 0 then Inr ([], None)
          else (case GetByPort (ServicePorts svc) reqSvcPort of
                  None \<Rightarrow> Inr ([], None)
                | Some svcPort \<Rightarrow>
                    (case InstancesByPort_slices X c svc svcPort labelsList slices [] of
                       Inl p \<Rightarrow> Inl p
                     | Inr out \<Rightarrow> Inr (out, None))))"

subsection \<open>The words of the claims about the handler and the by-port query\<close>

text \<open>
  The pod a builder is made from when \<^verbatim>\<open>newEndpointBuilder\<close> does not panic: the pod
  itself, or its copy with the derived locality label.
\<close>

definition pod_with_locality :: "('b, 'ep) externals \<Rightarrow> Pod option \<Rightarrow> Endpoint \<Rightarrow> Pod option" where
  "pod_with_locality X pod endpoint =
     (case pod of
        None \<Rightarrow> None
      | Some p \<Rightarrow>
          if label_value (pod_labels p) (LocalityLabel (names X)) = []
          then Some (p\<lparr>Labels := Some ((pod_labels p)(LocalityLabel (names X) \<mapsto>
                        getLocalityFromTopology (names X) (Topology endpoint)))\<rparr>)
          else Some p)"

text \<open>
  The record of one address for one slice port, the records of an address (one per port
  of the slice), an address that is skipped (no pod, and a target that names a pod), and
  the addresses of the endpoints of a slice that are not marked not-ready, each with its
  endpoint, in the order of the slice.
\<close>

definition endpoint_for_port :: "('b, 'ep) externals \<Rightarrow> 'b \<Rightarrow> string \<Rightarrow> EndpointPort \<Rightarrow> 'ep" where
  "endpoint_for_port X builder a port =
     buildIstioEndpoint X builder a
       (case PortNumber port of None \<Rightarrow> 0 | Some n \<Rightarrow> n)
       (case PortName port of None \<Rightarrow> [] | Some s \<Rightarrow> s)"

definition records_of_address ::
  "('b, 'ep) externals \<Rightarrow> Controller \<Rightarrow> EndpointSlice \<Rightarrow> Endpoint \<Rightarrow> string \<Rightarrow> 'ep list" where
  "records_of_address X c sl e a =
     map (endpoint_for_port X (NewEndpointBuilder X c (pod_with_locality X (pods c a) e)) a)
       (Ports sl)"

definition no_owner_but_pod_backed :: "Controller \<Rightarrow> Endpoint \<Rightarrow> string \<Rightarrow> bool" where
  "no_owner_but_pod_backed c e a =
     (pods c a = None \<and> (case TargetRef e of None \<Rightarrow> False | Some r \<Rightarrow> Kind r = ''Pod''))"

definition ready_addresses_of :: "Endpoint list \<Rightarrow> (Endpoint \<times> string) list" where
  "ready_addresses_of es =
     concat (map (\<lambda>e. map (Pair e) (Addresses e)) (filter (\<lambda>e. Ready e \<noteq> Some False) es))"

definition ready_addresses :: "EndpointSlice \<Rightarrow> (Endpoint \<times> string) list" where
  "ready_addresses sl = ready_addresses_of (Endpoints sl)"

text \<open>
  The loops of \<^verbatim>\<open>updateEDS\<close> over the endpoints and their addresses, as one loop over the
  ready addresses.
\<close>

fun updateEDS_pairs ::
  "('b, 'ep) externals \<Rightarrow> Controller \<Rightarrow> string \<Rightarrow> EndpointSlice \<Rightarrow> (Endpoint \<times> string) list \<Rightarrow>
   'ep list \<times> metric list option \<Rightarrow> panic + ('ep list \<times> metric list option)" where
  "updateEDS_pairs X c hostname sl [] st = Inr st"
| "updateEDS_pairs X c hostname sl (ea # eas) st =
     (case updateEDS_address X c hostname sl (fst ea) (snd ea) st of
        Inl p \<Rightarrow> Inl p
      | Inr st' \<Rightarrow> updateEDS_pairs X c hostname sl eas st')"

text \<open>
  For the by-port query: the labels of the workload of an address (none without a
  workload), the records one address gives for the resolved service port, one for each
  slice port that has no name or the service port's name, and the addresses of the
  listed slices, ready or not, each with its slice and endpoint, in the order of the
  listing. \<open>label_maps_allocated\<close> says that no pod of the pod cache has a \<^verbatim>\<open>nil\<close> label
  map.
\<close>

definition workload_labels :: "Controller \<Rightarrow> string \<Rightarrow> labels" where
  "workload_labels c a = (case pods c a of None \<Rightarrow> Map.empty | Some p \<Rightarrow> pod_labels p)"

definition instances_of_address ::
  "('b, 'ep) externals \<Rightarrow> Controller \<Rightarrow> Service \<Rightarrow> Port \<Rightarrow> EndpointSlice \<Rightarrow> Endpoint \<Rightarrow>
   string \<Rightarrow> 'ep ServiceInstance list" where
  "instances_of_address X c svc svcPort sl e a =
     map (\<lambda>port.
            \<lparr>InstanceEndpoint =
               buildIstioEndpoint X (NewEndpointBuilder X c (pod_with_locality X (pods c a) e)) a
                 (case PortNumber port of None \<Rightarrow> 0 | Some n \<Rightarrow> n) (Name svcPort),
             ServicePort = svcPort,
             InstanceService = svc\<rparr>)
       (filter (\<lambda>port. PortName port = None \<or> PortName port = Some (Name svcPort)) (Ports sl))"

definition addresses_of_slices :: "EndpointSlice list \<Rightarrow> (EndpointSlice \<times> Endpoint \<times> string) list" where
  "addresses_of_slices slices =
     concat (map (\<lambda>sl. concat (map (\<lambda>e. map (\<lambda>a. (sl, e, a)) (Addresses e)) (Endpoints sl))) slices)"

definition label_maps_allocated :: "Controller \<Rightarrow> bool" where
  "label_maps_allocated c = (\<forall>a p. pods c a = Some p \<longrightarrow> Labels p \<noteq> None)"

subsection \<open>Sample objects\<close>

text \<open>
  Concrete values for the examples: label names, the external functions (the builder is
  the pod it was made from, an endpoint is its address, port number, port name and the
  locality label of the builder's pod), a service \<open>svc.ns\<close> with the port \<open>http\<close> 80.
\<close>

definition sample_names :: label_names where
  "sample_names =
     \<lparr>LabelServiceName = ''kubernetes.io/service-name'',
      NodeRegionLabelGA = ''failure-domain.kubernetes.io/region'',
      NodeZoneLabelGA = ''failure-domain.kubernetes.io/zone'',
      IstioSubzoneLabel = ''topology.istio.io/subzone'',
      LocalityLabel = ''istio-locality''\<rparr>"

type_synonym sample_endpoint = "string \<times> 32 word \<times> string \<times> string"

definition sample_externals :: "(Pod option, sample_endpoint) externals" where
  "sample_externals =
     \<lparr>names = sample_names,
      ServiceHostname = (\<lambda>name namespace suffix. name @ ''.'' @ namespace),
      NewEndpointBuilder = (\<lambda>c pod. pod),
      buildIstioEndpoint = (\<lambda>builder a port portName.
         (a, port, portName,
          case builder of None \<Rightarrow> [] | Some p \<Rightarrow> label_value (pod_labels p) ''istio-locality''))\<rparr>"

definition sample_service :: Service where
  "sample_service =
     \<lparr>ServiceName = ''svc'', ServiceNamespace = ''ns'',
      ServicePorts = [\<lparr>Name = ''http'', Port = 80\<rparr>]\<rparr>"

definition sample_slice :: "Endpoint list \<Rightarrow> EndpointSlice" where
  "sample_slice es =
     \<lparr>SliceName = ''svc-ep-1'', Namespace = ''ns'',
      SliceLabels = [''kubernetes.io/service-name'' \<mapsto> ''svc''],
      Endpoints = es,
      Ports = [\<lparr>PortName = Some ''http'', PortNumber = Some 80\<rparr>]\<rparr>"

definition sample_endpoint_of :: "string \<Rightarrow> Endpoint" where
  "sample_endpoint_of a =
     \<lparr>Addresses = [a], Ready = Some True, TargetRef = Some \<lparr>Kind = ''Pod''\<rparr>,
      Topology = [''failure-domain.kubernetes.io/region'' \<mapsto> ''us-east-1'']\<rparr>"

definition sample_controller ::
  "(string \<rightharpoonup> Service) \<Rightarrow> (string \<rightharpoonup> Pod) \<Rightarrow> (string + EndpointSlice list) \<Rightarrow> Controller" where
  "sample_controller services podsByIP listing =
     \<lparr>servicesMap = services, pods = podsByIP, domainSuffix = ''cluster.local'',
      clusterID = ''Kubernetes'', informer = (\<lambda>namespace selector. listing)\<rparr>"

definition new_registry :: "'ep registry" where
  "new_registry = \<lparr>endpointCache = newEndpointSliceCache, metrics = Some [], xdsUpdates = []\<rparr>"

definition sample_unready_endpoint_of :: "string \<Rightarrow> Endpoint" where
  "sample_unready_endpoint_of a = (sample_endpoint_of a)\<lparr>Ready := Some False\<rparr>"

section \<open>Properties of the slice cache\<close>

subsection \<open>What one update stores\<close>

lemma slices_of_Update:
  "fmlookup (slices_of (Update e h s R) h') s' =
     (if h' = h \<and> s' = s then Some R else fmlookup (slices_of e h') s')"
  by (auto simp: slices_of_def Update_def Let_def split: option.splits)

lemma slices_of_Update_fun:
  "slices_of (Update e h s R) h = fmupd s R (slices_of e h)"
  by (rule fmap_ext) (simp add: slices_of_Update)

lemma slices_of_Update_other:
  "h' \<noteq> h \<Longrightarrow> slices_of (Update e h s R) h' = slices_of e h'"
  by (rule fmap_ext) (simp add: slices_of_Update)

lemma Update_idem: "Update (Update e h s R) h s R = Update e h s R"
  by (auto simp: Update_def Let_def fun_eq_iff fmdrop_fmupd_same split: option.splits)

lemma Get_loop_concat:
  "Get_loop m ks acc = acc @ concat (map (\<lambda>k. case fmlookup m k of None \<Rightarrow> [] | Some eps \<Rightarrow> eps) ks)"
  by (induction ks arbitrary: acc) auto

lemma slices_of_new: "slices_of newEndpointSliceCache h = fmempty"
  by (simp add: slices_of_def newEndpointSliceCache_def)

lemma latest_snoc:
  "latest (us @ [u]) h s = (if fst u = h \<and> fst (snd u) = s then Some (snd (snd u)) else latest us h s)"
  by (simp add: latest_def calls_for_def)

lemma slices_of_run: "fmlookup (slices_of (run_updates us) h) s = latest us h s"
proof (induction us rule: rev_induct)
  case Nil
  show ?case by (simp add: run_updates_def slices_of_new latest_def calls_for_def)
next
  case (snoc u us)
  have "run_updates (us @ [u]) = Update (run_updates us) (fst u) (fst (snd u)) (snd (snd u))"
    by (simp add: run_updates_def apply_update_def)
  then show ?case using snoc by (simp add: slices_of_Update latest_snoc)
qed

lemma dom_latest: "dom (latest us h) \<subseteq> set (map (\<lambda>u. fst (snd u)) us)"
proof
  fix s assume "s \<in> dom (latest us h)"
  then have "calls_for us h s \<noteq> []" by (auto simp: latest_def split: if_splits)
  then obtain u where "u \<in> set (calls_for us h s)" by (cases "calls_for us h s") auto
  then show "s \<in> set (map (\<lambda>u. fst (snd u)) us)" by (auto simp: calls_for_def)
qed

lemma Get_iff:
  "Get e h out \<longleftrightarrow>
     (\<exists>ks. distinct ks \<and> set ks = fmdom' (slices_of e h) \<and>
        out = concat (map (\<lambda>k. case fmlookup (slices_of e h) k of None \<Rightarrow> [] | Some eps \<Rightarrow> eps) ks))"
  by (auto simp: Get.simps Get_loop_concat)

lemma concat_map_filter_nonempty:
  "concat (map f (filter (\<lambda>k. f k \<noteq> []) ks)) = concat (map f ks)"
  by (induction ks) auto

lemma concat_map_all_empty: "\<forall>k \<in> set ks. f k = [] \<Longrightarrow> concat (map f ks) = []"
  by (induction ks) auto

lemma latest_recs_alt:
  "(case fmlookup (slices_of (run_updates us) h) k of None \<Rightarrow> [] | Some eps \<Rightarrow> eps) = latest_recs us h k"
  by (simp add: slices_of_run latest_recs_def)

lemma live_subset_dom: "live_slices us h \<subseteq> dom (latest us h)"
  by (auto simp: live_slices_def latest_recs_def split: option.splits)

lemma finite_dom_latest: "finite (dom (latest us h))"
  by (rule finite_subset[OF dom_latest]) simp

lemma dom_slices_run: "fmdom' (slices_of (run_updates us) h) = dom (latest us h)"
  by (auto simp: fmlookup_dom'_iff slices_of_run)

lemma Get_run_raw:
  "Get (run_updates us) h out \<longleftrightarrow>
     (\<exists>ks. distinct ks \<and> set ks = dom (latest us h) \<and> out = concat (map (latest_recs us h) ks))"
  by (simp add: Get_iff latest_recs_alt dom_slices_run)

lemma Get_run_iff:
  "Get (run_updates us) h out \<longleftrightarrow>
     (\<exists>ks. distinct ks \<and> set ks = live_slices us h \<and> out = concat (map (latest_recs us h) ks))"
proof
  assume "Get (run_updates us) h out"
  then obtain ks0 where ks0: "distinct ks0" "set ks0 = dom (latest us h)"
      "out = concat (map (latest_recs us h) ks0)"
    unfolding Get_run_raw by (elim exE conjE)
  let ?ks = "filter (\<lambda>k. latest_recs us h k \<noteq> []) ks0"
  have d: "distinct ?ks" using ks0(1) by (rule distinct_filter)
  have s: "set ?ks = live_slices us h"
  proof -
    have "set ?ks = {k \<in> dom (latest us h). latest_recs us h k \<noteq> []}"
      by (simp add: ks0(2))
    also have "\<dots> = live_slices us h"
      using live_subset_dom[of us h] unfolding live_slices_def by blast
    finally show ?thesis .
  qed
  have c: "out = concat (map (latest_recs us h) ?ks)"
    unfolding ks0(3) by (rule concat_map_filter_nonempty[symmetric])
  show "\<exists>ks. distinct ks \<and> set ks = live_slices us h \<and> out = concat (map (latest_recs us h) ks)"
    by (rule exI[of _ ?ks]) (intro conjI d s c)
next
  assume "\<exists>ks. distinct ks \<and> set ks = live_slices us h \<and> out = concat (map (latest_recs us h) ks)"
  then obtain ks where ks: "distinct ks" "set ks = live_slices us h"
      "out = concat (map (latest_recs us h) ks)" by (elim exE conjE)
  have "finite (dom (latest us h) - live_slices us h)" by (simp add: finite_dom_latest)
  from finite_distinct_list[OF this]
  obtain ds where ds: "set ds = dom (latest us h) - live_slices us h" "distinct ds"
    by (elim exE conjE)
  have dead: "\<forall>k \<in> set ds. latest_recs us h k = []" unfolding ds(1) by (simp add: live_slices_def)
  have "set ks \<inter> set ds = {}" unfolding ks(2) ds(1) by blast
  then have 1: "distinct (ks @ ds)" by (simp add: ks(1) ds(2))
  have "set (ks @ ds) = live_slices us h \<union> (dom (latest us h) - live_slices us h)"
    by (simp add: ks(2) ds(1))
  also have "\<dots> = dom (latest us h)" using live_subset_dom[of us h] by blast
  finally have 2: "set (ks @ ds) = dom (latest us h)" .
  have 3: "out = concat (map (latest_recs us h) (ks @ ds))"
    unfolding ks(3) by (simp add: concat_map_all_empty[OF dead])
  show "Get (run_updates us) h out"
    unfolding Get_run_raw by (rule exI[of _ "ks @ ds"]) (intro conjI 1 2 3)
qed

text \<open>
  After \<^verbatim>\<open>Update\<close> with an empty list the results of \<^verbatim>\<open>Get\<close> are made of the other
  slices' lists only: the entry left behind for the slice is empty and adds nothing.
\<close>

lemma Get_after_empty_update:
  "Get (Update e h s []) h out \<longleftrightarrow>
     (\<exists>ks. distinct ks \<and> set ks = fmdom' (slices_of e h) - {s} \<and>
        out = concat (map (\<lambda>k. case fmlookup (slices_of e h) k of None \<Rightarrow> [] | Some eps \<Rightarrow> eps) ks))"
proof
  let ?f = "\<lambda>k. case fmlookup (slices_of e h) k of None \<Rightarrow> [] | Some eps \<Rightarrow> eps"
  let ?g = "\<lambda>k. case fmlookup (slices_of (Update e h s []) h) k of None \<Rightarrow> [] | Some eps \<Rightarrow> eps"
  have g_s: "?g s = []" by (simp add: slices_of_Update)
  have g_other: "k \<noteq> s \<Longrightarrow> ?g k = ?f k" for k by (simp add: slices_of_Update)
  have dom: "fmdom' (slices_of (Update e h s []) h) = insert s (fmdom' (slices_of e h))"
    by (simp add: slices_of_Update_fun)
  {
    assume "Get (Update e h s []) h out"
    then obtain ks0 where ks0: "distinct ks0" "set ks0 = insert s (fmdom' (slices_of e h))"
        "out = concat (map ?g ks0)"
      unfolding Get_iff dom by (elim exE conjE)
    let ?ks = "filter (\<lambda>k. k \<noteq> s) ks0"
    have d: "distinct ?ks" using ks0(1) by (rule distinct_filter)
    have st: "set ?ks = fmdom' (slices_of e h) - {s}" unfolding set_filter ks0(2) by blast
    have "concat (map ?g ks0) = concat (map ?f ?ks)"
      using g_s g_other by (induction ks0) auto
    then have c: "out = concat (map ?f ?ks)" unfolding ks0(3) .
    show "\<exists>ks. distinct ks \<and> set ks = fmdom' (slices_of e h) - {s} \<and> out = concat (map ?f ks)"
      by (rule exI[of _ ?ks]) (intro conjI d st c)
  next
    assume "\<exists>ks. distinct ks \<and> set ks = fmdom' (slices_of e h) - {s} \<and> out = concat (map ?f ks)"
    then obtain ks where ks: "distinct ks" "set ks = fmdom' (slices_of e h) - {s}"
        "out = concat (map ?f ks)"
      by (elim exE conjE)
    have notin: "s \<notin> set ks" unfolding ks(2) by simp
    have d: "distinct (s # ks)" using ks(1) notin by simp
    have st: "set (s # ks) = fmdom' (slices_of (Update e h s []) h)" unfolding dom using ks(2) by auto
    have "concat (map ?g ks) = concat (map ?f ks)"
      using notin g_other by (induction ks) auto
    then have c: "out = concat (map ?g (s # ks))" unfolding ks(3) using g_s by simp
    show "Get (Update e h s []) h out"
      unfolding Get_iff by (rule exI[of _ "s # ks"]) (intro conjI d st c)
  }
qed

section \<open>Properties of the locality, the handler and the queries\<close>

subsection \<open>The builder and the handler's loops\<close>

lemma updateEDS_ports_eq:
  "updateEDS_ports X builder a ports acc = acc @ map (endpoint_for_port X builder a) ports"
  by (induction ports arbitrary: acc) (simp_all add: endpoint_for_port_def Let_def)

lemma newEndpointBuilder_allocated:
  "\<forall>p. pod = Some p \<longrightarrow> Labels p \<noteq> None \<Longrightarrow>
   newEndpointBuilder X c pod e = Inr (NewEndpointBuilder X c (pod_with_locality X pod e))"
  by (auto simp: newEndpointBuilder_def pod_with_locality_def pod_labels_def
      split: option.splits)

lemma newEndpointBuilder_nil:
  "Labels p = None \<Longrightarrow> newEndpointBuilder X c (Some p) e = Inl NilMapAssignment"
  by (simp add: newEndpointBuilder_def pod_labels_def label_value_def)

lemma updateEDS_address_skipped:
  "no_owner_but_pod_backed c e a \<Longrightarrow>
   updateEDS_address X c h sl e a st = Inr (fst st, AddMetric (EndpointNoPod h a) (snd st))"
  by (simp add: updateEDS_address_def no_owner_but_pod_backed_def)

lemma updateEDS_address_kept:
  "\<not> no_owner_but_pod_backed c e a \<Longrightarrow> \<forall>p. pods c a = Some p \<longrightarrow> Labels p \<noteq> None \<Longrightarrow>
   updateEDS_address X c h sl e a st = Inr (fst st @ records_of_address X c sl e a, snd st)"
  by (auto simp: updateEDS_address_def no_owner_but_pod_backed_def newEndpointBuilder_allocated
      records_of_address_def updateEDS_ports_eq)

lemma updateEDS_address_nil:
  "pods c a = Some p \<Longrightarrow> Labels p = None \<Longrightarrow>
   updateEDS_address X c h sl e a st = Inl NilMapAssignment"
  by (simp add: updateEDS_address_def newEndpointBuilder_nil)

lemma updateEDS_pairs_append:
  "updateEDS_pairs X c h sl (ps @ qs) st =
     (case updateEDS_pairs X c h sl ps st of
        Inl p \<Rightarrow> Inl p
      | Inr st' \<Rightarrow> updateEDS_pairs X c h sl qs st')"
  by (induction ps arbitrary: st) (simp_all split: sum.splits)

lemma updateEDS_addresses_pairs:
  "updateEDS_addresses X c h sl e as st = updateEDS_pairs X c h sl (map (Pair e) as) st"
  by (induction as arbitrary: st) (simp_all split: sum.splits)

lemma updateEDS_endpoints_pairs:
  "updateEDS_endpoints X c h sl es st = updateEDS_pairs X c h sl (ready_addresses_of es) st"
proof (induction es arbitrary: st)
  case Nil
  show ?case by (simp add: ready_addresses_of_def)
next
  case (Cons e es)
  have r: "ready_addresses_of (e # es) =
      (if Ready e = Some False then [] else map (Pair e) (Addresses e)) @ ready_addresses_of es"
    by (simp add: ready_addresses_of_def)
  show ?case
    by (simp add: Cons.IH r updateEDS_pairs_append updateEDS_addresses_pairs split: sum.splits)
qed

lemma updateEDS_build_pairs:
  "event \<noteq> EventDelete \<Longrightarrow>
   updateEDS_build X c sl event ms =
     updateEDS_pairs X c (slice_hostname X c sl) sl (ready_addresses sl) ([], ms)"
  by (simp add: updateEDS_build_def updateEDS_endpoints_pairs ready_addresses_def)

lemma updateEDS_known_panic:
  "servicesMap c (slice_hostname X c sl) = Some svc \<Longrightarrow>
   updateEDS_build X c sl event (metrics s) = Inl p \<Longrightarrow>
   updateEDS X c sl event s r \<longleftrightarrow> r = Inl p"
  by (auto simp: updateEDS.simps)

lemma updateEDS_known_built:
  "servicesMap c (slice_hostname X c sl) = Some svc \<Longrightarrow>
   updateEDS_build X c sl event (metrics s) = Inr (endpoints, ms) \<Longrightarrow>
   updateEDS X c sl event s r \<longleftrightarrow>
    (\<exists>merged.
       Get (Update (endpointCache s) (slice_hostname X c sl) (SliceName sl) endpoints)
         (slice_hostname X c sl) merged \<and>
       r = Inr \<lparr>endpointCache = Update (endpointCache s) (slice_hostname X c sl) (SliceName sl)
                   endpoints,
               metrics = ms,
               xdsUpdates = xdsUpdates s @
                 [(clusterID c, slice_hostname X c sl, Namespace sl, merged)]\<rparr>)"
  by (auto simp: updateEDS.simps)

subsection \<open>The merged view\<close>

lemma Get_total: "\<exists>out. Get e h out"
proof -
  from finite_distinct_list[OF finite_fmdom', of "slices_of e h"]
  obtain ks where "set ks = fmdom' (slices_of e h)" "distinct ks" by (elim exE conjE)
  then have "Get e h (Get_loop (slices_of e h) ks [])" by (simp add: Get_range)
  then show ?thesis ..
qed

lemma concat_single_live:
  "distinct ks \<Longrightarrow> k0 \<in> set ks \<Longrightarrow> \<forall>k \<in> set ks. k \<noteq> k0 \<longrightarrow> f k = [] \<Longrightarrow>
   concat (map f ks) = f k0"
proof (induction ks)
  case Nil
  then show ?case by simp
next
  case (Cons k ks)
  show ?case
  proof (cases "k = k0")
    case True
    then have "\<forall>k' \<in> set ks. f k' = []" using Cons.prems by auto
    then have "concat (map f ks) = []" by (rule concat_map_all_empty)
    then show ?thesis using True by simp
  next
    case False
    then have "f k = []" "k0 \<in> set ks" using Cons.prems by auto
    then show ?thesis using Cons by simp
  qed
qed

lemma Get_single_live:
  assumes "Get e h out" and "fmlookup (slices_of e h) k0 = Some recs"
    and "\<forall>k. k \<noteq> k0 \<longrightarrow> fmlookup (slices_of e h) k = None \<or> fmlookup (slices_of e h) k = Some []"
  shows "out = recs"
proof -
  let ?f = "\<lambda>k. case fmlookup (slices_of e h) k of None \<Rightarrow> [] | Some eps \<Rightarrow> eps"
  from assms(1) obtain ks where ks: "distinct ks" "set ks = fmdom' (slices_of e h)"
      "out = concat (map ?f ks)"
    unfolding Get_iff by (elim exE conjE)
  have "k0 \<in> set ks" unfolding ks(2) using assms(2) by (simp add: fmlookup_dom'_iff)
  moreover have "\<forall>k \<in> set ks. k \<noteq> k0 \<longrightarrow> ?f k = []"
    using assms(3) by (auto split: option.splits)
  ultimately have "concat (map ?f ks) = ?f k0" using ks(1) by (intro concat_single_live)
  then show ?thesis unfolding ks(3) by (simp add: assms(2))
qed

subsection \<open>The handler on a slice with one unresolvable and one resolvable address\<close>

text \<open>
  When the pod of the resolvable address has a label map the handler returns: it stores
  for the slice exactly the records of that address, counts the other address in the
  metrics and pushes one merged view, which is exactly those records when no other slice
  of the hostname holds records.
\<close>

lemma updateEDS_degrades_when_labels_allocated:
  assumes known: "servicesMap c (slice_hostname X c sl) = Some svc"
    and ev: "event \<noteq> EventDelete"
    and addrs: "ready_addresses sl = [(e_bad, a_bad), (e_good, a_good)] \<or>
                ready_addresses sl = [(e_good, a_good), (e_bad, a_bad)]"
    and bad: "pods c a_bad = None" "TargetRef e_bad = Some r" "Kind r = ''Pod''"
    and good: "pods c a_good = Some p" "Labels p \<noteq> None"
  shows "(\<exists>s'. updateEDS X c sl event s (Inr s')) \<and>
    (\<forall>out. updateEDS X c sl event s out \<longrightarrow>
       (\<exists>s' merged. out = Inr s' \<and>
          fmlookup (slices_of (endpointCache s') (slice_hostname X c sl)) (SliceName sl)
            = Some (records_of_address X c sl e_good a_good) \<and>
          metrics s' = AddMetric (EndpointNoPod (slice_hostname X c sl) a_bad) (metrics s) \<and>
          xdsUpdates s' = xdsUpdates s @
            [(clusterID c, slice_hostname X c sl, Namespace sl, merged)] \<and>
          Get (endpointCache s') (slice_hostname X c sl) merged \<and>
          ((\<forall>k. k \<noteq> SliceName sl \<longrightarrow>
               fmlookup (slices_of (endpointCache s) (slice_hostname X c sl)) k = None \<or>
               fmlookup (slices_of (endpointCache s) (slice_hostname X c sl)) k = Some [])
           \<longrightarrow> merged = records_of_address X c sl e_good a_good)))"
proof -
  let ?h = "slice_hostname X c sl"
  let ?recs = "records_of_address X c sl e_good a_good"
  have skip: "no_owner_but_pod_backed c e_bad a_bad"
    using bad by (simp add: no_owner_but_pod_backed_def)
  have keep: "\<not> no_owner_but_pod_backed c e_good a_good"
    using good by (simp add: no_owner_but_pod_backed_def)
  have alloc: "\<forall>q. pods c a_good = Some q \<longrightarrow> Labels q \<noteq> None" using good by simp
  have build: "updateEDS_build X c sl event (metrics s) =
      Inr (?recs, AddMetric (EndpointNoPod ?h a_bad) (metrics s))"
    using addrs
    by (auto simp: updateEDS_build_pairs[OF ev] updateEDS_address_skipped[OF skip]
        updateEDS_address_kept[OF keep alloc])
  let ?cache = "Update (endpointCache s) ?h (SliceName sl) ?recs"
  note step = updateEDS_known_built[OF known build]
  have ex: "\<exists>s'. updateEDS X c sl event s (Inr s')"
  proof -
    from Get_total obtain merged where "Get ?cache ?h merged" ..
    then show ?thesis unfolding step by blast
  qed
  have all: "\<exists>s' merged. out = Inr s' \<and>
          fmlookup (slices_of (endpointCache s') ?h) (SliceName sl) = Some ?recs \<and>
          metrics s' = AddMetric (EndpointNoPod ?h a_bad) (metrics s) \<and>
          xdsUpdates s' = xdsUpdates s @ [(clusterID c, ?h, Namespace sl, merged)] \<and>
          Get (endpointCache s') ?h merged \<and>
          ((\<forall>k. k \<noteq> SliceName sl \<longrightarrow>
               fmlookup (slices_of (endpointCache s) ?h) k = None \<or>
               fmlookup (slices_of (endpointCache s) ?h) k = Some [])
           \<longrightarrow> merged = ?recs)" if run: "updateEDS X c sl event s out" for out
  proof -
    from run obtain merged where g: "Get ?cache ?h merged"
      and out: "out = Inr \<lparr>endpointCache = ?cache,
               metrics = AddMetric (EndpointNoPod ?h a_bad) (metrics s),
               xdsUpdates = xdsUpdates s @ [(clusterID c, ?h, Namespace sl, merged)]\<rparr>"
      unfolding step by (elim exE conjE)
    have look: "fmlookup (slices_of ?cache ?h) (SliceName sl) = Some ?recs"
      by (simp add: slices_of_Update)
    have alone: "merged = ?recs"
      if "\<forall>k. k \<noteq> SliceName sl \<longrightarrow>
               fmlookup (slices_of (endpointCache s) ?h) k = None \<or>
               fmlookup (slices_of (endpointCache s) ?h) k = Some []"
    proof (rule Get_single_live[OF g look])
      show "\<forall>k. k \<noteq> SliceName sl \<longrightarrow>
          fmlookup (slices_of ?cache ?h) k = None \<or> fmlookup (slices_of ?cache ?h) k = Some []"
        using that by (simp add: slices_of_Update)
    qed
    show ?thesis
      apply (rule exI[of _ "\<lparr>endpointCache = ?cache,
               metrics = AddMetric (EndpointNoPod ?h a_bad) (metrics s),
               xdsUpdates = xdsUpdates s @ [(clusterID c, ?h, Namespace sl, merged)]\<rparr>"])
      apply (rule exI[of _ merged])
      apply (intro conjI impI)
           apply (rule out)
          apply (simp add: look)
         apply simp
        apply simp
       apply (simp add: g)
      apply (erule alone)
      done
  qed
  show ?thesis using ex all by blast
qed

subsection \<open>The by-port query in closed form\<close>

lemma InstancesByPort_ports_eq:
  "InstancesByPort_ports X svc svcPort builder a ports out =
     out @ map (\<lambda>port.
            \<lparr>InstanceEndpoint =
               buildIstioEndpoint X builder a
                 (case PortNumber port of None \<Rightarrow> 0 | Some n \<Rightarrow> n) (Name svcPort),
             ServicePort = svcPort,
             InstanceService = svc\<rparr>)
       (filter (\<lambda>port. PortName port = None \<or> PortName port = Some (Name svcPort)) ports)"
  by (induction ports arbitrary: out) (simp_all add: Let_def)

lemma selected_pod_allocated:
  assumes "labelsList = Map.empty \<longrightarrow> label_maps_allocated c"
    and "labelsList \<subseteq>\<^sub>m workload_labels c a"
  shows "\<forall>p. pods c a = Some p \<longrightarrow> Labels p \<noteq> None"
proof (intro allI impI notI)
  fix p assume p: "pods c a = Some p" and n: "Labels p = None"
  then have "workload_labels c a = Map.empty" by (simp add: workload_labels_def pod_labels_def)
  then have "labelsList \<subseteq>\<^sub>m Map.empty" using assms(2) by simp
  then have "labelsList = Map.empty" by (rule map_le_antisym) simp
  then have "label_maps_allocated c" using assms(1) by simp
  then have "Labels p \<noteq> None" using p unfolding label_maps_allocated_def by blast
  then show False using n by simp
qed

lemma InstancesByPort_address_eq:
  assumes "labelsList = Map.empty \<longrightarrow> label_maps_allocated c"
  shows "InstancesByPort_address X c svc svcPort labelsList sl e a out =
     Inr (out @ (if labelsList \<subseteq>\<^sub>m workload_labels c a
                 then instances_of_address X c svc svcPort sl e a else []))"
proof (cases "labelsList \<subseteq>\<^sub>m workload_labels c a")
  case True
  have w: "(case pods c a of None \<Rightarrow> Map.empty | Some p \<Rightarrow> pod_labels p) = workload_labels c a"
    by (simp add: workload_labels_def)
  show ?thesis
    using True
    by (simp add: InstancesByPort_address_def Let_def HasSubsetOf_def w
        newEndpointBuilder_allocated[OF selected_pod_allocated[OF assms True]]
        InstancesByPort_ports_eq instances_of_address_def)
next
  case False
  then show ?thesis
    by (simp add: InstancesByPort_address_def Let_def HasSubsetOf_def workload_labels_def)
qed

lemma InstancesByPort_addresses_eq:
  assumes "labelsList = Map.empty \<longrightarrow> label_maps_allocated c"
  shows "InstancesByPort_addresses X c svc svcPort labelsList sl e as out =
     Inr (out @ concat (map (instances_of_address X c svc svcPort sl e)
                    (filter (\<lambda>a. labelsList \<subseteq>\<^sub>m workload_labels c a) as)))"
  by (induction as arbitrary: out) (simp_all add: InstancesByPort_address_eq[OF assms])

lemma filter_map_triple:
  "filter (\<lambda>(sl, e, a). P a) (map (\<lambda>a. (sl, e, a)) as) = map (\<lambda>a. (sl, e, a)) (filter P as)"
  by (induction as) auto

lemma InstancesByPort_endpoints_eq:
  assumes "labelsList = Map.empty \<longrightarrow> label_maps_allocated c"
  shows "InstancesByPort_endpoints X c svc svcPort labelsList sl es out =
     Inr (out @ concat (map (\<lambda>(sl, e, a). instances_of_address X c svc svcPort sl e a)
              (filter (\<lambda>(sl, e, a). labelsList \<subseteq>\<^sub>m workload_labels c a)
                 (concat (map (\<lambda>e. map (\<lambda>a. (sl, e, a)) (Addresses e)) es)))))"
proof (induction es arbitrary: out)
  case Nil
  show ?case by simp
next
  case (Cons e es)
  show ?case
    by (simp add: Cons.IH InstancesByPort_addresses_eq[OF assms] filter_map_triple comp_def)
qed

lemma InstancesByPort_slices_eq:
  assumes "labelsList = Map.empty \<longrightarrow> label_maps_allocated c"
  shows "InstancesByPort_slices X c svc svcPort labelsList slices out =
     Inr (out @ concat (map (\<lambda>(sl, e, a). instances_of_address X c svc svcPort sl e a)
              (filter (\<lambda>(sl, e, a). labelsList \<subseteq>\<^sub>m workload_labels c a)
                 (addresses_of_slices slices))))"
proof (induction slices arbitrary: out)
  case Nil
  show ?case by (simp add: addresses_of_slices_def)
next
  case (Cons sl slices)
  have a: "addresses_of_slices (sl # slices) =
      concat (map (\<lambda>e. map (\<lambda>a. (sl, e, a)) (Addresses e)) (Endpoints sl)) @ addresses_of_slices slices"
    by (simp add: addresses_of_slices_def)
  show ?case by (simp add: Cons.IH a InstancesByPort_endpoints_eq[OF assms])
qed

lemma InstancesByPort_slices_no_endpoints:
  "\<forall>sl \<in> set slices. Endpoints sl = [] \<Longrightarrow>
   InstancesByPort_slices X c svc svcPort labelsList slices out = Inr out"
  by (induction slices arbitrary: out) simp_all

lemma InstancesByPort_error_free:
  "InstancesByPort X c svc reqSvcPort labelsList = Inr (out, err) \<Longrightarrow> err = None"
  by (auto simp: InstancesByPort_def split: sum.splits option.splits if_splits)

subsection \<open>The by-proxy query\<close>

lemma GetProxyServiceInstances_loop_panics:
  "IPAddresses proxy = [] \<Longrightarrow> ep \<in> set eps \<Longrightarrow> servicesMap c (slice_hostname X c ep) \<noteq> None \<Longrightarrow>
   GetProxyServiceInstances_loop X c proxy eps st = Inl IndexOutOfRange"
proof (induction eps arbitrary: st)
  case Nil
  then show ?case by simp
next
  case (Cons ep' eps)
  show ?case
  proof (cases "servicesMap c (slice_hostname X c ep')")
    case None
    then have "ep \<in> set eps" using Cons.prems by auto
    then show ?thesis using None Cons by (simp add: proxyServiceInstances_def)
  next
    case (Some svc)
    then show ?thesis using Cons.prems(1) by (simp add: proxyServiceInstances_def)
  qed
qed

section \<open>The claims about the slice cache\<close>

text \<open>
  Claim C1. The claim: after \<^verbatim>\<open>update(h, s, [])\<close> no internal entry for \<open>(h, s)\<close> remains.
  What the code does: the \<^verbatim>\<open>delete\<close> is followed, with no \<^verbatim>\<open>return\<close> between, by the
  unconditional store of the empty list, so for every cache, hostname and slice the
  entry for \<open>(h, s)\<close> is present afterwards and holds the empty list. (The rest of the
  claim holds, see \<open>Get_after_empty_update\<close>: no record of the slice is returned.)
\<close>

theorem C1_update_empty_keeps_entry:
  "s \<in> fmdom' (slices_of (Update e h s []) h) \<and>
   fmlookup (slices_of (Update e h s []) h) s = Some []"
  by (simp add: slices_of_Update fmlookup_dom'_iff)

text \<open>
  Claim C2, as amended. For every sequence of updates run on a new cache and every
  hostname: \<^verbatim>\<open>Get\<close> returns a result; its possible results are exactly the
  concatenations of the latest \<open>recs\<close> of the slices whose latest \<open>recs\<close> is non-empty,
  each such slice taken once, in any order of the slices; and with no such slice the
  result is the empty list.
\<close>

theorem C2_get_merges_latest_in_some_order:
  "(\<exists>out. Get (run_updates us) h out) \<and>
   (\<forall>out. Get (run_updates us) h out \<longleftrightarrow>
      (\<exists>ks. distinct ks \<and> set ks = live_slices us h \<and>
         out = concat (map (latest_recs us h) ks))) \<and>
   (live_slices us h = {} \<longrightarrow> (\<forall>out. Get (run_updates us) h out \<longleftrightarrow> out = []))"
proof (intro conjI allI impI)
  have "finite (live_slices us h)"
    by (rule finite_subset[OF live_subset_dom finite_dom_latest])
  from finite_distinct_list[OF this]
  obtain ks where ks: "set ks = live_slices us h" "distinct ks" by (elim exE conjE)
  have "Get (run_updates us) h (concat (map (latest_recs us h) ks))"
    unfolding Get_run_iff by (rule exI[of _ ks]) (simp add: ks)
  then show "\<exists>out. Get (run_updates us) h out" ..
next
  fix out
  show "Get (run_updates us) h out \<longleftrightarrow>
      (\<exists>ks. distinct ks \<and> set ks = live_slices us h \<and>
         out = concat (map (latest_recs us h) ks))"
    by (rule Get_run_iff)
next
  fix out
  assume "live_slices us h = {}"
  then show "Get (run_updates us) h out \<longleftrightarrow> out = []"
    by (simp add: Get_run_iff)
qed

text \<open>
  The scenario of the specification: two records written to slice \<open>svc-ep-1\<close>, then the
  slice emptied. No slice is live and \<^verbatim>\<open>Get\<close> returns the empty list.
\<close>

theorem C2_get_merges_latest_in_some_order_witness:
  "live_slices [(''svc.ns'', ''svc-ep-1'', [''10.0.0.1:80'', ''10.0.0.2:80'']),
                (''svc.ns'', ''svc-ep-1'', [])] ''svc.ns'' = {} \<and>
   (\<forall>out. Get (run_updates [(''svc.ns'', ''svc-ep-1'', [''10.0.0.1:80'', ''10.0.0.2:80'']),
                (''svc.ns'', ''svc-ep-1'', [])]) ''svc.ns'' out \<longleftrightarrow> out = [])"
proof -
  let ?us = "[(''svc.ns'', ''svc-ep-1'', [''10.0.0.1:80'', ''10.0.0.2:80'']),
              (''svc.ns'', ''svc-ep-1'', [])]"
  have dead: "live_slices ?us ''svc.ns'' = {}"
    by (simp add: live_slices_def latest_recs_def latest_def calls_for_def)
  from C2_get_merges_latest_in_some_order [of ?us "''svc.ns''"] dead
  have "\<forall>out. Get (run_updates ?us) ''svc.ns'' out \<longleftrightarrow> out = []"
    by (elim conjE) (rule mp)
  with dead show ?thesis by (rule conjI)
qed

text \<open>
  The claim as stated fails: slices \<open>a\<close> and \<open>b\<close> are written in this order, one record
  each, and \<^verbatim>\<open>Get\<close> may visit \<open>b\<close> first, which is not the insertion order.
\<close>

theorem C2_counterexample:
  "Get (run_updates [(''h'', ''a'', [''r1'']), (''h'', ''b'', [''r2''])]) ''h'' [''r2'', ''r1''] \<and>
   [''r2'', ''r1''] \<noteq>
     merged_in_insertion_order [(''h'', ''a'', [''r1'']), (''h'', ''b'', [''r2''])] ''h''"
proof -
  let ?us = "[(''h'', ''a'', [''r1'']), (''h'', ''b'', [''r2''])]"
  have m: "slices_of (run_updates ?us) ''h'' = fmupd ''b'' [''r2''] (fmupd ''a'' [''r1''] fmempty)"
    by (simp add: run_updates_def apply_update_def slices_of_Update_fun slices_of_new)
  have "Get (run_updates ?us) ''h'' (Get_loop (slices_of (run_updates ?us) ''h'') [''b'', ''a''] [])"
  proof (rule Get_range)
    show "distinct [''b'', ''a'']" by simp
    show "set [''b'', ''a''] = fmdom' (slices_of (run_updates ?us) ''h'')"
      unfolding m by auto
  qed
  then have g: "Get (run_updates ?us) ''h'' [''r2'', ''r1'']"
    unfolding m by simp
  have "merged_in_insertion_order ?us ''h'' = [''r1'', ''r2'']"
    by (simp add: merged_in_insertion_order_def latest_recs_def latest_def calls_for_def)
  then have "[''r2'', ''r1''] \<noteq> merged_in_insertion_order ?us ''h''" by simp
  with g show ?thesis by (rule conjI)
qed

text \<open>
  Claim C3. A second \<^verbatim>\<open>Update\<close> with the same hostname, slice and records leaves the
  cache as the first one left it, so the results \<^verbatim>\<open>Get\<close> can return for the hostname
  are the same before and after the second call.
\<close>

theorem C3_update_idempotent:
  "Update (Update e h s R) h s R = Update e h s R \<and>
   Get (Update (Update e h s R) h s R) h = Get (Update e h s R) h"
  by (simp add: Update_idem)

theorem C3_update_idempotent_witness:
  "Update (Update newEndpointSliceCache ''svc.ns'' ''svc-ep-1'' [''10.0.0.1:80''])
       ''svc.ns'' ''svc-ep-1'' [''10.0.0.1:80'']
     = Update newEndpointSliceCache ''svc.ns'' ''svc-ep-1'' [''10.0.0.1:80''] \<and>
   fmlookup (slices_of (Update (Update newEndpointSliceCache ''svc.ns'' ''svc-ep-1'' [''10.0.0.1:80''])
       ''svc.ns'' ''svc-ep-1'' [''10.0.0.1:80'']) ''svc.ns'') ''svc-ep-1'' = Some [''10.0.0.1:80'']"
  using C3_update_idempotent [of "newEndpointSliceCache :: string endpointSliceCache"
      "''svc.ns''" "''svc-ep-1''" "[''10.0.0.1:80'']"]
  by (simp add: slices_of_Update)

text \<open>
  Claim C4. An \<^verbatim>\<open>Update\<close> of slice \<open>s1\<close> of a hostname leaves the entry stored for any
  other slice \<open>s2\<close> of that hostname as it was (present with the same list, or absent).
\<close>

theorem C4_slice_isolation:
  "s1 \<noteq> s2 \<Longrightarrow>
   fmlookup (slices_of (Update e h s1 recs) h) s2 = fmlookup (slices_of e h) s2"
  by (simp add: slices_of_Update)

theorem C4_slice_isolation_witness:
  "''svc-ep-1'' \<noteq> ''svc-ep-2'' \<and>
   fmlookup (slices_of (Update (Update newEndpointSliceCache ''svc.ns'' ''svc-ep-2'' [''10.0.0.2:80''])
       ''svc.ns'' ''svc-ep-1'' [''10.0.0.1:80'']) ''svc.ns'') ''svc-ep-2'' = Some [''10.0.0.2:80'']"
proof -
  have ne: "''svc-ep-1'' \<noteq> ''svc-ep-2''" by simp
  let ?e = "Update newEndpointSliceCache ''svc.ns'' ''svc-ep-2'' [''10.0.0.2:80'']"
  have a: "fmlookup (slices_of (Update ?e ''svc.ns'' ''svc-ep-1'' [''10.0.0.1:80'']) ''svc.ns'') ''svc-ep-2''
             = fmlookup (slices_of ?e ''svc.ns'') ''svc-ep-2''"
    by (rule C4_slice_isolation [OF ne])
  have b: "fmlookup (slices_of ?e ''svc.ns'') ''svc-ep-2'' = Some [''10.0.0.2:80'']"
    by (simp add: slices_of_Update)
  from a b have
    "fmlookup (slices_of (Update ?e ''svc.ns'' ''svc-ep-1'' [''10.0.0.1:80'']) ''svc.ns'') ''svc-ep-2''
       = Some [''10.0.0.2:80'']"
    by (rule trans)
  with ne show ?thesis by (rule conjI)
qed

section \<open>The claims about the locality, the handler and the queries\<close>

text \<open>
  Claim C5, as amended. For every topology map the derived locality is the region value,
  blank when the region label is missing, then \<^verbatim>\<open>"/"\<close> and the zone value when the zone
  label is present, then \<^verbatim>\<open>"/"\<close> and the subzone value when the subzone label is
  present. So with the region label present it is the present values of region, zone and
  subzone, in this order, joined by \<^verbatim>\<open>"/"\<close> (a region alone gives just the region);
  with the region label missing it is \<^verbatim>\<open>"/"\<close> followed by the joined zone and subzone
  values when one of them is present, and empty when none is.
\<close>

theorem C5_locality_from_topology:
  "getLocalityFromTopology L topology =
     (case topology (NodeRegionLabelGA L) of
        Some region \<Rightarrow> locality_of_present_fields L topology
      | None \<Rightarrow>
          if topology (NodeZoneLabelGA L) = None \<and> topology (IstioSubzoneLabel L) = None
          then []
          else ''/'' @ locality_of_present_fields L topology)"
  by (auto simp: getLocalityFromTopology_def locality_of_present_fields_def present_fields_def
      label_value_def Let_def split: option.splits)


theorem C5_locality_from_topology_witness:
  "getLocalityFromTopology sample_names
     [''failure-domain.kubernetes.io/region'' \<mapsto> ''us-east-1''] = ''us-east-1'' \<and>
   getLocalityFromTopology sample_names
     [''failure-domain.kubernetes.io/region'' \<mapsto> ''us-east-1'',
      ''topology.istio.io/subzone'' \<mapsto> ''rack-7''] = ''us-east-1/rack-7''"
proof -
  have a: "getLocalityFromTopology sample_names
      [''failure-domain.kubernetes.io/region'' \<mapsto> ''us-east-1''] = ''us-east-1''"
    unfolding C5_locality_from_topology
    by (simp add: sample_names_def locality_of_present_fields_def present_fields_def)
  have b: "getLocalityFromTopology sample_names
     [''failure-domain.kubernetes.io/region'' \<mapsto> ''us-east-1'',
      ''topology.istio.io/subzone'' \<mapsto> ''rack-7''] = ''us-east-1/rack-7''"
    unfolding C5_locality_from_topology
    by (simp add: sample_names_def locality_of_present_fields_def present_fields_def)
  from a b show ?thesis by (rule conjI)
qed

text \<open>
  The claim as stated fails: with the zone label alone the region is left blank, not
  omitted, and the locality starts with a separator.
\<close>

theorem C5_counterexample:
  "getLocalityFromTopology sample_names
     [''failure-domain.kubernetes.io/zone'' \<mapsto> ''us-east-1a''] = ''/us-east-1a'' \<and>
   locality_of_present_fields sample_names
     [''failure-domain.kubernetes.io/zone'' \<mapsto> ''us-east-1a''] = ''us-east-1a''"
proof -
  have a: "getLocalityFromTopology sample_names
      [''failure-domain.kubernetes.io/zone'' \<mapsto> ''us-east-1a''] = ''/us-east-1a''"
    by (simp add: sample_names_def getLocalityFromTopology_def label_value_def)
  have b: "locality_of_present_fields sample_names
      [''failure-domain.kubernetes.io/zone'' \<mapsto> ''us-east-1a''] = ''us-east-1a''"
    by (simp add: sample_names_def locality_of_present_fields_def present_fields_def)
  from a b show ?thesis by (rule conjI)
qed


text \<open>
  Claim C6. The claim: an event with one unresolvable, pod-backed address and one
  resolvable address yields exactly the records of the resolvable one, and the update of
  the slice is not aborted. What the code does when the pod of the resolvable address
  has no label map (\<^verbatim>\<open>Labels\<close> is \<^verbatim>\<open>nil\<close>): \<^verbatim>\<open>newEndpointBuilder\<close> panics on the store of
  the locality label, so the only outcome of the handler is the panic. It does not
  return, nothing is written to the cache and nothing is pushed. (When the pod has a
  label map the claim holds, see \<open>updateEDS_degrades_when_labels_allocated\<close>.)
\<close>

theorem C6_no_owner_degrade_aborts_on_nil_labels:
  assumes known: "servicesMap c (slice_hostname X c sl) = Some svc"
    and ev: "event \<noteq> EventDelete"
    and addrs: "ready_addresses sl = [(e_bad, a_bad), (e_good, a_good)] \<or>
                ready_addresses sl = [(e_good, a_good), (e_bad, a_bad)]"
    and bad: "pods c a_bad = None" "TargetRef e_bad = Some r" "Kind r = ''Pod''"
    and good: "pods c a_good = Some p"
    and nil: "Labels p = None"
  shows "updateEDS X c sl event s out \<longleftrightarrow> out = Inl NilMapAssignment"
proof -
  have skip: "no_owner_but_pod_backed c e_bad a_bad"
    using bad by (simp add: no_owner_but_pod_backed_def)
  have build: "updateEDS_build X c sl event (metrics s) = Inl NilMapAssignment"
    using addrs
    by (auto simp: updateEDS_build_pairs[OF ev] updateEDS_address_skipped[OF skip]
        updateEDS_address_nil[OF good nil])
  show ?thesis by (rule updateEDS_known_panic[OF known build])
qed


theorem C6_no_owner_degrade_aborts_on_nil_labels_witness:
  "updateEDS sample_externals
     (sample_controller [''svc.ns'' \<mapsto> sample_service]
        [''10.0.0.2'' \<mapsto> \<lparr>Labels = None\<rparr>] (Inr []))
     (sample_slice [sample_endpoint_of ''10.0.0.1'', sample_endpoint_of ''10.0.0.2''])
     EventAdd (new_registry :: sample_endpoint registry) (Inl NilMapAssignment) \<and>
   (\<forall>out. updateEDS sample_externals
     (sample_controller [''svc.ns'' \<mapsto> sample_service]
        [''10.0.0.2'' \<mapsto> \<lparr>Labels = None\<rparr>] (Inr []))
     (sample_slice [sample_endpoint_of ''10.0.0.1'', sample_endpoint_of ''10.0.0.2''])
     EventAdd (new_registry :: sample_endpoint registry) out \<longleftrightarrow> out = Inl NilMapAssignment)"
proof -
  let ?c = "sample_controller [''svc.ns'' \<mapsto> sample_service]
             [''10.0.0.2'' \<mapsto> \<lparr>Labels = None\<rparr>] (Inr [])"
  let ?sl = "sample_slice [sample_endpoint_of ''10.0.0.1'', sample_endpoint_of ''10.0.0.2'']"
  let ?s = "new_registry :: sample_endpoint registry"
  have h: "slice_hostname sample_externals ?c ?sl = ''svc.ns''"
    by (simp add: slice_hostname_def sample_externals_def sample_names_def sample_slice_def
        label_value_def)
  have known: "servicesMap ?c (slice_hostname sample_externals ?c ?sl) = Some sample_service"
    unfolding h by (simp add: sample_controller_def)
  have ev: "EventAdd \<noteq> EventDelete" by simp
  have addrs: "ready_addresses ?sl =
        [(sample_endpoint_of ''10.0.0.1'', ''10.0.0.1''),
         (sample_endpoint_of ''10.0.0.2'', ''10.0.0.2'')] \<or>
      ready_addresses ?sl =
        [(sample_endpoint_of ''10.0.0.2'', ''10.0.0.2''),
         (sample_endpoint_of ''10.0.0.1'', ''10.0.0.1'')]"
    by (simp add: ready_addresses_def ready_addresses_of_def sample_slice_def
        sample_endpoint_of_def)
  have bad: "pods ?c ''10.0.0.1'' = None"
      "TargetRef (sample_endpoint_of ''10.0.0.1'') = Some \<lparr>Kind = ''Pod''\<rparr>"
      "Kind \<lparr>Kind = ''Pod''\<rparr> = ''Pod''"
    by (simp_all add: sample_controller_def sample_endpoint_of_def)
  have good: "pods ?c ''10.0.0.2'' = Some \<lparr>Labels = None\<rparr>"
    by (simp add: sample_controller_def)
  have nil: "Labels \<lparr>Labels = None\<rparr> = None" by simp
  note inst = C6_no_owner_degrade_aborts_on_nil_labels [OF known ev addrs bad good nil, of ?s]
  have a: "updateEDS sample_externals ?c ?sl EventAdd ?s (Inl NilMapAssignment)"
    unfolding inst by (rule refl)
  have b: "\<forall>out. updateEDS sample_externals ?c ?sl EventAdd ?s out \<longleftrightarrow> out = Inl NilMapAssignment"
    by (rule allI) (rule inst)
  from a b show ?thesis by (rule conjI)
qed

text \<open>
  Claim C7. With no service for the slice's hostname the handler returns and the registry
  state is as before: the cache is unchanged and no push is made. The handler has no
  error result.
\<close>

theorem C7_unknown_service_skipped:
  "servicesMap c (slice_hostname X c sl) = None \<Longrightarrow>
   updateEDS X c sl event s out \<longleftrightarrow> out = Inr s"
  by (auto simp: updateEDS.simps)


theorem C7_unknown_service_skipped_witness:
  "servicesMap (sample_controller Map.empty Map.empty (Inr []))
     (slice_hostname sample_externals (sample_controller Map.empty Map.empty (Inr []))
        (sample_slice [sample_endpoint_of ''10.0.0.1''])) = None \<and>
   (\<forall>out. updateEDS sample_externals (sample_controller Map.empty Map.empty (Inr []))
           (sample_slice [sample_endpoint_of ''10.0.0.1'']) EventAdd
           (new_registry :: sample_endpoint registry) out
         \<longleftrightarrow> out = Inr new_registry)"
proof -
  have unknown: "servicesMap (sample_controller Map.empty Map.empty (Inr []))
     (slice_hostname sample_externals (sample_controller Map.empty Map.empty (Inr []))
        (sample_slice [sample_endpoint_of ''10.0.0.1''])) = None"
    by (simp add: sample_controller_def)
  from unknown C7_unknown_service_skipped [OF unknown] show ?thesis by blast
qed

text \<open>
  Claim C8, as amended. The query lists the slices of the service; a lister error gives
  the empty result and no error, and so does a port number that no service port has.
  Otherwise it returns, with no error, exactly the records built from the listed slices
  for the addresses whose workload labels contain every requested label (an address with
  no workload has no labels), in the order of the listing: every address of every
  endpoint of a listed slice counts, ready or not, and the slice cache is not read; the
  records of an address are those for the resolved service port, one for each slice port
  that is unnamed or carries the service port's name. This is for a non-empty set of
  requested labels, or for pods that all have a label map.
\<close>

theorem C8_instances_by_port:
  assumes "labelsList = Map.empty \<longrightarrow> label_maps_allocated c"
  shows "InstancesByPort X c svc reqSvcPort labelsList =
    (case informer c (ServiceNamespace svc) [LabelServiceName (names X) \<mapsto> ServiceName svc] of
       Inl err \<Rightarrow> Inr ([], None)
     | Inr slices \<Rightarrow>
         (case GetByPort (ServicePorts svc) reqSvcPort of
            None \<Rightarrow> Inr ([], None)
          | Some svcPort \<Rightarrow>
              Inr (concat (map (\<lambda>(sl, e, a). instances_of_address X c svc svcPort sl e a)
                     (filter (\<lambda>(sl, e, a). labelsList \<subseteq>\<^sub>m workload_labels c a)
                        (addresses_of_slices slices))), None)))"
proof (cases "informer c (ServiceNamespace svc) [LabelServiceName (names X) \<mapsto> ServiceName svc]")
  case (Inl err)
  then show ?thesis by (simp add: InstancesByPort_def)
next
  case (Inr slices)
  show ?thesis
  proof (cases "GetByPort (ServicePorts svc) reqSvcPort")
    case None
    then show ?thesis using Inr by (simp add: InstancesByPort_def)
  next
    case (Some svcPort)
    show ?thesis
    proof (cases slices)
      case Nil
      then show ?thesis using Inr Some by (simp add: InstancesByPort_def addresses_of_slices_def)
    next
      case (Cons sl rest)
      have "InstancesByPort_slices X c svc svcPort labelsList slices [] =
          Inr (concat (map (\<lambda>(sl, e, a). instances_of_address X c svc svcPort sl e a)
                 (filter (\<lambda>(sl, e, a). labelsList \<subseteq>\<^sub>m workload_labels c a)
                    (addresses_of_slices slices))))"
        by (simp add: InstancesByPort_slices_eq[OF assms])
      then show ?thesis using Inr Some Cons by (simp add: InstancesByPort_def)
    qed
  qed
qed


theorem C8_instances_by_port_witness:
  "InstancesByPort sample_externals
     (sample_controller [''svc.ns'' \<mapsto> sample_service]
        [''10.0.0.1'' \<mapsto> \<lparr>Labels = Some [''app'' \<mapsto> ''foo'', ''version'' \<mapsto> ''v1'']\<rparr>,
         ''10.0.0.2'' \<mapsto> \<lparr>Labels = Some [''app'' \<mapsto> ''bar'']\<rparr>]
        (Inr [sample_slice [sample_endpoint_of ''10.0.0.1'', sample_endpoint_of ''10.0.0.2'']]))
     sample_service 80 [''app'' \<mapsto> ''foo'']
   = Inr ([\<lparr>InstanceEndpoint = (''10.0.0.1'', 80, ''http'', ''us-east-1''),
            ServicePort = \<lparr>Name = ''http'', Port = 80\<rparr>,
            InstanceService = sample_service\<rparr>], None)"
proof -
  let ?c = "sample_controller [''svc.ns'' \<mapsto> sample_service]
        [''10.0.0.1'' \<mapsto> \<lparr>Labels = Some [''app'' \<mapsto> ''foo'', ''version'' \<mapsto> ''v1'']\<rparr>,
         ''10.0.0.2'' \<mapsto> \<lparr>Labels = Some [''app'' \<mapsto> ''bar'']\<rparr>]
        (Inr [sample_slice [sample_endpoint_of ''10.0.0.1'', sample_endpoint_of ''10.0.0.2'']])"
  let ?slices = "[sample_slice [sample_endpoint_of ''10.0.0.1'', sample_endpoint_of ''10.0.0.2'']]"
  let ?p = "\<lparr>Name = ''http'', Port = 80\<rparr>"
  have hyp: "[''app'' \<mapsto> ''foo''] = Map.empty \<longrightarrow> label_maps_allocated ?c" by simp
  have listed: "informer ?c (ServiceNamespace sample_service)
      [LabelServiceName (names sample_externals) \<mapsto> ServiceName sample_service] = Inr ?slices"
    by (simp add: sample_controller_def)
  have port: "GetByPort (ServicePorts sample_service) 80 = Some ?p"
    by (simp add: GetByPort_def sample_service_def)
  have yes: "[''app'' \<mapsto> ''foo''] \<subseteq>\<^sub>m workload_labels ?c ''10.0.0.1''"
    by (simp add: workload_labels_def pod_labels_def sample_controller_def map_le_def)
  have no: "\<not> [''app'' \<mapsto> ''foo''] \<subseteq>\<^sub>m workload_labels ?c ''10.0.0.2''"
    by (simp add: workload_labels_def pod_labels_def sample_controller_def map_le_def)
  have recs: "instances_of_address sample_externals ?c sample_service ?p
      (sample_slice [sample_endpoint_of ''10.0.0.1'', sample_endpoint_of ''10.0.0.2''])
      (sample_endpoint_of ''10.0.0.1'') ''10.0.0.1''
    = [\<lparr>InstanceEndpoint = (''10.0.0.1'', 80, ''http'', ''us-east-1''),
        ServicePort = ?p, InstanceService = sample_service\<rparr>]"
    by (simp add: instances_of_address_def pod_with_locality_def pod_labels_def
        sample_externals_def sample_names_def sample_slice_def sample_endpoint_of_def
        sample_controller_def getLocalityFromTopology_def label_value_def)
  have addrs: "addresses_of_slices ?slices =
      [(sample_slice [sample_endpoint_of ''10.0.0.1'', sample_endpoint_of ''10.0.0.2''],
        sample_endpoint_of ''10.0.0.1'', ''10.0.0.1''),
       (sample_slice [sample_endpoint_of ''10.0.0.1'', sample_endpoint_of ''10.0.0.2''],
        sample_endpoint_of ''10.0.0.2'', ''10.0.0.2'')]"
    by (simp add: addresses_of_slices_def sample_slice_def sample_endpoint_of_def)
  have "InstancesByPort sample_externals ?c sample_service 80 [''app'' \<mapsto> ''foo''] =
      Inr (concat (map (\<lambda>(sl, e, a). instances_of_address sample_externals ?c sample_service ?p sl e a)
             (filter (\<lambda>(sl, e, a). [''app'' \<mapsto> ''foo''] \<subseteq>\<^sub>m workload_labels ?c a)
                (addresses_of_slices ?slices))), None)"
    unfolding C8_instances_by_port [OF hyp] listed port by simp
  then show ?thesis unfolding addrs by (simp add: yes no recs)
qed

text \<open>
  The claim as stated fails. A slice whose one endpoint is marked not ready, with a pod
  labelled \<open>app = foo\<close>: the handler stores no record for the hostname and pushes the
  empty merged view, and the by-port query for port 80 and the labels \<open>app = foo\<close>
  returns a record for that address all the same.
\<close>

theorem C8_counterexample:
  "updateEDS sample_externals
     (sample_controller [''svc.ns'' \<mapsto> sample_service]
        [''10.0.0.1'' \<mapsto> \<lparr>Labels = Some [''app'' \<mapsto> ''foo'']\<rparr>]
        (Inr [sample_slice [sample_unready_endpoint_of ''10.0.0.1'']]))
     (sample_slice [sample_unready_endpoint_of ''10.0.0.1''])
     EventAdd new_registry
     (Inr \<lparr>endpointCache = Update newEndpointSliceCache ''svc.ns'' ''svc-ep-1'' [],
           metrics = Some [],
           xdsUpdates = [(''Kubernetes'', ''svc.ns'', ''ns'', [])]\<rparr>) \<and>
   slices_of (Update (newEndpointSliceCache :: sample_endpoint endpointSliceCache)
       ''svc.ns'' ''svc-ep-1'' []) ''svc.ns'' = fmupd ''svc-ep-1'' [] fmempty \<and>
   InstancesByPort sample_externals
     (sample_controller [''svc.ns'' \<mapsto> sample_service]
        [''10.0.0.1'' \<mapsto> \<lparr>Labels = Some [''app'' \<mapsto> ''foo'']\<rparr>]
        (Inr [sample_slice [sample_unready_endpoint_of ''10.0.0.1'']]))
     sample_service 80 [''app'' \<mapsto> ''foo'']
   = Inr ([\<lparr>InstanceEndpoint = (''10.0.0.1'', 80, ''http'', ''us-east-1''),
            ServicePort = \<lparr>Name = ''http'', Port = 80\<rparr>,
            InstanceService = sample_service\<rparr>], None)"
proof -
  let ?c = "sample_controller [''svc.ns'' \<mapsto> sample_service]
        [''10.0.0.1'' \<mapsto> \<lparr>Labels = Some [''app'' \<mapsto> ''foo'']\<rparr>]
        (Inr [sample_slice [sample_unready_endpoint_of ''10.0.0.1'']])"
  let ?sl = "sample_slice [sample_unready_endpoint_of ''10.0.0.1'']"
  let ?s = "new_registry :: sample_endpoint registry"
  let ?cache = "Update (newEndpointSliceCache :: sample_endpoint endpointSliceCache)
       ''svc.ns'' ''svc-ep-1'' []"
  have h: "slice_hostname sample_externals ?c ?sl = ''svc.ns''"
    by (simp add: slice_hostname_def sample_externals_def sample_names_def sample_slice_def
        label_value_def)
  have known: "servicesMap ?c (slice_hostname sample_externals ?c ?sl) = Some sample_service"
    unfolding h by (simp add: sample_controller_def)
  have build: "updateEDS_build sample_externals ?c ?sl EventAdd (metrics ?s) = Inr ([], Some [])"
    by (simp add: updateEDS_build_def sample_slice_def sample_unready_endpoint_of_def
        sample_endpoint_of_def new_registry_def)
  have m: "slices_of ?cache ''svc.ns'' = fmupd ''svc-ep-1'' [] fmempty"
    by (simp add: slices_of_Update_fun slices_of_new)
  have "Get ?cache ''svc.ns'' (Get_loop (slices_of ?cache ''svc.ns'') [''svc-ep-1''] [])"
  proof (rule Get_range)
    show "distinct [''svc-ep-1'']" by simp
    show "set [''svc-ep-1''] = fmdom' (slices_of ?cache ''svc.ns'')" unfolding m by simp
  qed
  then have g: "Get ?cache ''svc.ns'' []" unfolding m by simp
  have cache: "Update (endpointCache ?s) (slice_hostname sample_externals ?c ?sl) (SliceName ?sl)
      (fst ([] :: sample_endpoint list, Some ([] :: metric list))) = ?cache"
    unfolding h by (simp add: new_registry_def sample_slice_def)
  have "updateEDS sample_externals ?c ?sl EventAdd ?s
     (Inr \<lparr>endpointCache = ?cache,
           metrics = snd ([] :: sample_endpoint list, Some ([] :: metric list)),
           xdsUpdates = xdsUpdates ?s @
             [(clusterID ?c, slice_hostname sample_externals ?c ?sl, Namespace ?sl, [])]\<rparr>)"
  proof (rule updateEDS_push[OF known build cache[symmetric]])
    show "Get ?cache (slice_hostname sample_externals ?c ?sl) []"
      unfolding h by (rule g)
  qed
  then have a: "updateEDS sample_externals ?c ?sl EventAdd ?s
     (Inr \<lparr>endpointCache = ?cache, metrics = Some [],
           xdsUpdates = [(''Kubernetes'', ''svc.ns'', ''ns'', [])]\<rparr>)"
    unfolding h by (simp add: new_registry_def sample_slice_def sample_controller_def)
  have listed: "informer ?c (ServiceNamespace sample_service)
      [LabelServiceName (names sample_externals) \<mapsto> ServiceName sample_service] = Inr [?sl]"
    by (simp add: sample_controller_def)
  have port: "GetByPort (ServicePorts sample_service) 80 = Some \<lparr>Name = ''http'', Port = 80\<rparr>"
    by (simp add: GetByPort_def sample_service_def)
  have q: "InstancesByPort sample_externals ?c sample_service 80 [''app'' \<mapsto> ''foo'']
      = Inr ([\<lparr>InstanceEndpoint = (''10.0.0.1'', 80, ''http'', ''us-east-1''),
            ServicePort = \<lparr>Name = ''http'', Port = 80\<rparr>,
            InstanceService = sample_service\<rparr>], None)"
    unfolding InstancesByPort_def listed port
    by (simp add: InstancesByPort_address_def HasSubsetOf_def map_le_def
        newEndpointBuilder_def pod_labels_def sample_externals_def sample_names_def
        sample_slice_def sample_unready_endpoint_of_def sample_endpoint_of_def
        sample_controller_def getLocalityFromTopology_def label_value_def Let_def)
  from a m q show ?thesis by (intro conjI)
qed


text \<open>
  Claim C9. A proxy with no address, in a namespace whose listed slices include one of a
  known service: the query does not return a result, it panics on the index expression
  \<^verbatim>\<open>proxy.IPAddresses[0]\<close>.
\<close>

theorem C9_proxy_query_panics_on_no_address:
  "IPAddresses proxy = [] \<Longrightarrow>
   informer c (ProxyNamespace proxy) Map.empty = Inr eps \<Longrightarrow>
   ep \<in> set eps \<Longrightarrow>
   servicesMap c (slice_hostname X c ep) = Some svc \<Longrightarrow>
   GetProxyServiceInstances X c proxy ms = Inl IndexOutOfRange"
  by (simp add: GetProxyServiceInstances_def GetProxyServiceInstances_loop_panics)


theorem C9_proxy_query_panics_on_no_address_witness:
  "IPAddresses \<lparr>ID = ''sidecar'', IPAddresses = [], ProxyNamespace = ''ns''\<rparr> = [] \<and>
   GetProxyServiceInstances sample_externals
     (sample_controller [''svc.ns'' \<mapsto> sample_service] Map.empty
        (Inr [sample_slice [sample_endpoint_of ''10.0.0.1'']]))
     \<lparr>ID = ''sidecar'', IPAddresses = [], ProxyNamespace = ''ns''\<rparr> (Some [])
   = Inl IndexOutOfRange"
proof -
  let ?c = "sample_controller [''svc.ns'' \<mapsto> sample_service] Map.empty
        (Inr [sample_slice [sample_endpoint_of ''10.0.0.1'']])"
  let ?proxy = "\<lparr>ID = ''sidecar'', IPAddresses = [], ProxyNamespace = ''ns''\<rparr>"
  let ?sl = "sample_slice [sample_endpoint_of ''10.0.0.1'']"
  have none: "IPAddresses ?proxy = []" by simp
  have listed: "informer ?c (ProxyNamespace ?proxy) Map.empty = Inr [?sl]"
    by (simp add: sample_controller_def)
  have mem: "?sl \<in> set [?sl]" by simp
  have known: "servicesMap ?c (slice_hostname sample_externals ?c ?sl) = Some sample_service"
    by (simp add: slice_hostname_def sample_externals_def sample_names_def sample_slice_def
        label_value_def sample_controller_def)
  from none C9_proxy_query_panics_on_no_address [OF none listed mem known, of "Some []"]
  show ?thesis by (rule conjI)
qed


text \<open>
  Claim C10. \<^verbatim>\<open>InstancesByPort\<close> never returns an error that is not \<^verbatim>\<open>nil\<close>, for any
  input. A lister error, an empty listing and a port number that no service port has
  each give the empty result with a \<^verbatim>\<open>nil\<close> error, which is also the result for listed
  slices that have no endpoints.
\<close>

theorem C10_instances_by_port_error_always_nil:
  "(\<forall>out err. InstancesByPort X c svc reqSvcPort labelsList = Inr (out, err) \<longrightarrow> err = None) \<and>
   ((\<exists>err. informer c (ServiceNamespace svc) [LabelServiceName (names X) \<mapsto> ServiceName svc] = Inl err) \<or>
    informer c (ServiceNamespace svc) [LabelServiceName (names X) \<mapsto> ServiceName svc] = Inr [] \<or>
    GetByPort (ServicePorts svc) reqSvcPort = None
    \<longrightarrow> InstancesByPort X c svc reqSvcPort labelsList = Inr ([], None)) \<and>
   (\<forall>slices.
      informer c (ServiceNamespace svc) [LabelServiceName (names X) \<mapsto> ServiceName svc] = Inr slices \<and>
      (\<forall>sl \<in> set slices. Endpoints sl = [])
      \<longrightarrow> InstancesByPort X c svc reqSvcPort labelsList = Inr ([], None))"
proof (intro conjI allI impI)
  fix out err
  assume "InstancesByPort X c svc reqSvcPort labelsList = Inr (out, err)"
  then show "err = None" by (rule InstancesByPort_error_free)
next
  assume "(\<exists>err. informer c (ServiceNamespace svc) [LabelServiceName (names X) \<mapsto> ServiceName svc] = Inl err) \<or>
    informer c (ServiceNamespace svc) [LabelServiceName (names X) \<mapsto> ServiceName svc] = Inr [] \<or>
    GetByPort (ServicePorts svc) reqSvcPort = None"
  then show "InstancesByPort X c svc reqSvcPort labelsList = Inr ([], None)"
    by (auto simp: InstancesByPort_def split: sum.splits option.splits)
next
  fix slices
  assume "informer c (ServiceNamespace svc) [LabelServiceName (names X) \<mapsto> ServiceName svc] = Inr slices \<and>
      (\<forall>sl \<in> set slices. Endpoints sl = [])"
  then show "InstancesByPort X c svc reqSvcPort labelsList = Inr ([], None)"
    by (simp add: InstancesByPort_def InstancesByPort_slices_no_endpoints split: option.splits)
qed


theorem C10_instances_by_port_error_always_nil_witness:
  "informer (sample_controller [''svc.ns'' \<mapsto> sample_service] Map.empty (Inl ''lister failed''))
     (ServiceNamespace sample_service)
     [LabelServiceName (names sample_externals) \<mapsto> ServiceName sample_service]
     = Inl ''lister failed'' \<and>
   InstancesByPort sample_externals
     (sample_controller [''svc.ns'' \<mapsto> sample_service] Map.empty (Inl ''lister failed''))
     sample_service 80 Map.empty = Inr ([], None)"
proof -
  let ?c = "sample_controller [''svc.ns'' \<mapsto> sample_service] Map.empty (Inl ''lister failed'')"
  have failed: "informer ?c (ServiceNamespace sample_service)
     [LabelServiceName (names sample_externals) \<mapsto> ServiceName sample_service]
     = Inl ''lister failed''"
    by (simp add: sample_controller_def)
  from C10_instances_by_port_error_always_nil
    [of sample_externals ?c sample_service 80 Map.empty] failed
  have "InstancesByPort sample_externals ?c sample_service 80 Map.empty = Inr ([], None)"
    by blast
  with failed show ?thesis by (rule conjI)
qed

end
